theory Spec2Isabelle
  imports Complex_Main "HOL-Library.Multiset" "HOL-Library.Log_Nat"
begin

section \<open>Errors and numbers\<close>

text \<open>
  Every exception the modelled code raises is a value. The constructors of
  \<open>value_error\<close> stand for the messages of the \<open>ValueError\<close>s of the source:
  the empty creative list and the missing required field of \<open>_validate_creatives\<close>
  and \<open>add_creative\<close>, the empty collection of \<open>choose_next\<close>, a string that is no
  member of the enum \<open>RotationStrategy\<close>, \<open>max()\<close>/\<open>min()\<close> of an empty sequence, and
  the two checks of \<open>_validate_date_range\<close>. The other constructors of \<open>error\<close> are
  Python's \<open>KeyError\<close> (with the key) and \<open>IndexError\<close> and the classes of
  \<open>exceptions.py\<close>. All of them are subclasses of \<open>Exception\<close>, which is what the
  handlers of the aggregator catch.
\<close>

datatype value_error =
    Empty_creative_list
  | Missing_required_field string
  | No_creatives_available
  | Not_a_valid_strategy string
  | Empty_sequence
  | Start_after_end
  | Start_in_future

datatype error =
    ValueError value_error
  | KeyError string
  | IndexError
  | AdsAPIError
  | AuthenticationError
  | InvalidTokenError
  | RateLimitError
  | DataNotFoundError

text \<open>
  A Python float is a binary64 value. A finite one is the rational number it denotes,
  and \<open>PInf\<close> is \<open>float('inf')\<close>. The comparisons of floats are the linear order
  in which \<open>PInf\<close> is the greatest value. NaN, negative infinity and the sign of
  zero do not occur in the values the modelled code computes from finite fields.
\<close>

datatype pyfloat = Fin rat | PInf

instantiation pyfloat :: linorder
begin

fun less_eq_pyfloat :: "pyfloat \<Rightarrow> pyfloat \<Rightarrow> bool" where
  "less_eq_pyfloat (Fin a) (Fin b) = (a \<le> b)"
| "less_eq_pyfloat (Fin a) PInf = True"
| "less_eq_pyfloat PInf (Fin b) = False"
| "less_eq_pyfloat PInf PInf = True"

fun less_pyfloat :: "pyfloat \<Rightarrow> pyfloat \<Rightarrow> bool" where
  "less_pyfloat (Fin a) (Fin b) = (a < b)"
| "less_pyfloat (Fin a) PInf = True"
| "less_pyfloat PInf b = False"

instance
proof
  fix x y z :: pyfloat
  show "(x < y) = (x \<le> y \<and> \<not> y \<le> x)"
    by (cases x; cases y) auto
  show "x \<le> x"
    by (cases x) auto
  show "x \<le> y \<Longrightarrow> y \<le> z \<Longrightarrow> x \<le> z"
    by (cases x; cases y; cases z) auto
  show "x \<le> y \<Longrightarrow> y \<le> x \<Longrightarrow> x = y"
    by (cases x; cases y) auto
  show "x \<le> y \<or> y \<le> x"
    by (cases x; cases y) auto
qed

end

text \<open>The nearest integer, a tie going to the even one.\<close>

definition round_half_even :: "rat \<Rightarrow> int" where
  "round_half_even x =
     (let f = \<lfloor>x\<rfloor>; d = x - of_int f
      in if d < 1 / 2 then f
         else if 1 / 2 < d then f + 1
         else if even f then f else f + 1)"

text \<open>
  Float arithmetic rounds the exact result to the nearest binary64 value, a tie going
  to the even significand. \<open>binade x\<close> is the exponent \<open>e\<close> with
  \<open>2 ^ e \<le> |x| < 2 ^ (e + 1)\<close>, found from the bit lengths of numerator and
  denominator; a binary64 value of that binade is a multiple of \<open>2 ^ (e - 52)\<close>, and
  below \<open>2 ^ -1022\<close> (the subnormal range) of \<open>2 ^ -1074\<close>. The counters of the
  data model are 64-bit, so that no result reaches \<open>2 ^ 1024\<close>: overflow is not
  modelled.
\<close>

definition binade :: "rat \<Rightarrow> int" where
  "binade x =
     (let (p, q) = quotient_of \<bar>x\<bar>; k = bitlen p - bitlen q
      in if 2 powi k \<le> \<bar>x\<bar> then k else k - 1)"

definition double_of :: "rat \<Rightarrow> rat" where
  "double_of x =
     (if x = 0 then 0
      else
        let e = max (binade x) (- 1022); ulp = 2 powi (e - 52)
        in of_int (round_half_even (x / ulp)) * ulp)"

text \<open>
  The operations the code uses: the conversion of an \<open>int\<close> operand to a float, the
  true division of two \<open>int\<close>s (correctly rounded from the exact quotient), and the
  product and the quotient of two floats.
\<close>

definition int_to_float :: "int \<Rightarrow> rat" where
  "int_to_float k = double_of (of_int k)"

definition int_truediv :: "int \<Rightarrow> int \<Rightarrow> rat" where
  "int_truediv a b = double_of (of_int a / of_int b)"

definition float_mul :: "rat \<Rightarrow> rat \<Rightarrow> rat" where
  "float_mul a b = double_of (a * b)"

definition float_div :: "rat \<Rightarrow> rat \<Rightarrow> rat" where
  "float_div a b = double_of (a / b)"

text \<open>
  The builtin \<open>round(x, ndigits)\<close> on a finite float: the exact value of \<open>x\<close> is
  rounded to the nearest multiple of \<open>10 ^ -ndigits\<close>, a tie going to the even one,
  and the float nearest to that decimal is returned.
\<close>

definition py_round :: "rat \<Rightarrow> nat \<Rightarrow> rat" where
  "py_round x ndigits =
     double_of (of_int (round_half_even (x * 10 ^ ndigits)) / 10 ^ ndigits)"

definition and_then :: "error + 'a \<Rightarrow> ('a \<Rightarrow> error + 'b) \<Rightarrow> error + 'b" where
  "and_then m f = (case m of Inl e \<Rightarrow> Inl e | Inr x \<Rightarrow> f x)"

text \<open>\<open>d[k]\<close> on a dictionary whose entry for \<open>k\<close> is \<open>v\<close> (\<open>None\<close>: no such key).\<close>

definition getitem :: "string \<Rightarrow> 'a option \<Rightarrow> error + 'a" where
  "getitem k v = (case v of None \<Rightarrow> Inl (KeyError k) | Some x \<Rightarrow> Inr x)"

text \<open>A loop that builds a list and stops at the first exception.\<close>

primrec traverse :: "('a \<Rightarrow> error + 'b) \<Rightarrow> 'a list \<Rightarrow> error + 'b list" where
  "traverse f [] = Inr []"
| "traverse f (x # xs) =
     (case f x of
        Inl e \<Rightarrow> Inl e
      | Inr y \<Rightarrow> (case traverse f xs of Inl e \<Rightarrow> Inl e | Inr ys \<Rightarrow> Inr (y # ys)))"

text \<open>A list comprehension \<open>[x for x in xs if p(x)]\<close> whose condition may raise.\<close>

primrec filter_result :: "('a \<Rightarrow> error + bool) \<Rightarrow> 'a list \<Rightarrow> error + 'a list" where
  "filter_result p [] = Inr []"
| "filter_result p (x # xs) =
     (case p x of
        Inl e \<Rightarrow> Inl e
      | Inr b \<Rightarrow>
          (case filter_result p xs of
             Inl e \<Rightarrow> Inl e
           | Inr ys \<Rightarrow> Inr (if b then x # ys else ys)))"

text \<open>
  The builtins \<open>max(xs, key=k)\<close> and \<open>min(xs, key=k)\<close>: the first item is the
  candidate, and a later item replaces it only when its key is strictly greater
  (smaller), so the first of several extremal items is returned.
\<close>

primrec max_loop :: "('a \<Rightarrow> error + pyfloat) \<Rightarrow> 'a \<Rightarrow> pyfloat \<Rightarrow> 'a list \<Rightarrow> error + 'a" where
  "max_loop key best bv [] = Inr best"
| "max_loop key best bv (x # xs) =
     (case key x of
        Inl e \<Rightarrow> Inl e
      | Inr v \<Rightarrow> if bv < v then max_loop key x v xs else max_loop key best bv xs)"

definition py_max :: "('a \<Rightarrow> error + pyfloat) \<Rightarrow> 'a list \<Rightarrow> error + 'a" where
  "py_max key xs =
     (case xs of
        [] \<Rightarrow> Inl (ValueError Empty_sequence)
      | x # rest \<Rightarrow> (case key x of Inl e \<Rightarrow> Inl e | Inr v \<Rightarrow> max_loop key x v rest))"

primrec min_loop :: "('a \<Rightarrow> error + pyfloat) \<Rightarrow> 'a \<Rightarrow> pyfloat \<Rightarrow> 'a list \<Rightarrow> error + 'a" where
  "min_loop key best bv [] = Inr best"
| "min_loop key best bv (x # xs) =
     (case key x of
        Inl e \<Rightarrow> Inl e
      | Inr v \<Rightarrow> if v < bv then min_loop key x v xs else min_loop key best bv xs)"

definition py_min :: "('a \<Rightarrow> error + pyfloat) \<Rightarrow> 'a list \<Rightarrow> error + 'a" where
  "py_min key xs =
     (case xs of
        [] \<Rightarrow> Inl (ValueError Empty_sequence)
      | x # rest \<Rightarrow> (case key x of Inl e \<Rightarrow> Inl e | Inr v \<Rightarrow> min_loop key x v rest))"

text \<open>
  \<open>random.choice(xs)\<close> is \<open>xs[randbelow(len(xs))]\<close>; the draw is a parameter of the
  model, reduced into the range of the indices.
\<close>

definition random_choice :: "nat \<Rightarrow> 'a list \<Rightarrow> error + 'a" where
  "random_choice rnd xs = (if xs = [] then Inl IndexError else Inr (xs ! (rnd mod length xs)))"

section \<open>The metrics of the platform clients (\<open>clients/base_client.py\<close>)\<close>

definition calculate_ctr :: "int \<Rightarrow> int \<Rightarrow> pyfloat" where
  "calculate_ctr impressions clicks =
     (if impressions = 0 then Fin 0
      else Fin (py_round (float_mul (int_truediv clicks impressions) (int_to_float 100)) 2))"

definition calculate_cpc :: "rat \<Rightarrow> int \<Rightarrow> pyfloat" where
  "calculate_cpc spend clicks =
     (if clicks = 0 then Fin 0
      else Fin (py_round (float_div spend (int_to_float clicks)) 2))"

text \<open>
  A date is its ordinal (\<open>date.toordinal()\<close>); \<open>date.today()\<close> is the parameter
  \<open>today\<close>.
\<close>

type_synonym date = nat

definition validate_date_range :: "date \<Rightarrow> date \<Rightarrow> date \<Rightarrow> error + unit" where
  "validate_date_range today start_date end_date =
     (if start_date > end_date then Inl (ValueError Start_after_end)
      else if start_date > today then Inl (ValueError Start_in_future)
      else Inr ())"

section \<open>The creative rotator (\<open>rotator.py\<close>)\<close>

text \<open>
  A creative is a dictionary; the model keeps the seven keys the code reads, each
  present (\<open>Some\<close>) or absent (\<open>None\<close>).
\<close>

record creative =
  ad_id :: "string option"
  ad_name :: "string option"
  impressions :: "int option"
  clicks :: "int option"
  spend :: "rat option"
  ctr :: "pyfloat option"
  cpc :: "pyfloat option"

record rotator =
  creatives :: "creative list"
  round_robin_index :: nat

datatype RotationStrategy = ROUND_ROBIN | BEST_CTR | LOWEST_CPC

text \<open>The call \<open>RotationStrategy(strategy)\<close> of the enum on a string.\<close>

definition RotationStrategy_of :: "string \<Rightarrow> error + RotationStrategy" where
  "RotationStrategy_of s =
     (if s = ''round_robin'' then Inr ROUND_ROBIN
      else if s = ''best_ctr'' then Inr BEST_CTR
      else if s = ''lowest_cpc'' then Inr LOWEST_CPC
      else Inl (ValueError (Not_a_valid_strategy s)))"

text \<open>The first of the required fields that a creative lacks, in the order of the check.\<close>

definition missing_field :: "creative \<Rightarrow> string option" where
  "missing_field c =
     (if ad_id c = None then Some ''ad_id''
      else if ad_name c = None then Some ''ad_name''
      else if impressions c = None then Some ''impressions''
      else if clicks c = None then Some ''clicks''
      else if spend c = None then Some ''spend''
      else None)"

primrec validate_fields :: "creative list \<Rightarrow> error + unit" where
  "validate_fields [] = Inr ()"
| "validate_fields (c # cs) =
     (case missing_field c of
        Some f \<Rightarrow> Inl (ValueError (Missing_required_field f))
      | None \<Rightarrow> validate_fields cs)"

definition validate_creatives :: "creative list \<Rightarrow> error + unit" where
  "validate_creatives cs =
     (if cs = [] then Inl (ValueError Empty_creative_list) else validate_fields cs)"

text \<open>
  The body of the loop of \<open>_ensure_metrics\<close> is two \<open>if\<close> statements, one per
  metric; each reads the raw fields in the order of the source and stores the metric
  in the dictionary. The model returns the updated dictionary.
\<close>

definition ensure_ctr :: "creative \<Rightarrow> error + creative" where
  "ensure_ctr c =
     (if ctr c = None then
        and_then (getitem ''impressions'' (impressions c)) (\<lambda>i.
        and_then (getitem ''clicks'' (clicks c)) (\<lambda>k.
        Inr (c\<lparr>ctr := Some (if i > 0 then Fin (float_mul (int_truediv k i) (int_to_float 100))
                            else Fin 0)\<rparr>)))
      else Inr c)"

definition ensure_cpc :: "creative \<Rightarrow> error + creative" where
  "ensure_cpc c =
     (if cpc c = None then
        and_then (getitem ''spend'' (spend c)) (\<lambda>s.
        and_then (getitem ''clicks'' (clicks c)) (\<lambda>k.
        Inr (c\<lparr>cpc := Some (if k > 0 then Fin (float_div s (int_to_float k)) else PInf)\<rparr>)))
      else Inr c)"

definition ensure_metrics :: "creative list \<Rightarrow> error + creative list" where
  "ensure_metrics cs = traverse (\<lambda>c. and_then (ensure_ctr c) ensure_cpc) cs"

text \<open>\<open>CreativeRotator.__init__\<close>.\<close>

definition CreativeRotator_init :: "creative list \<Rightarrow> error + rotator" where
  "CreativeRotator_init cs =
     and_then (validate_creatives cs) (\<lambda>_.
     and_then (ensure_metrics cs) (\<lambda>cs'.
     Inr \<lparr>creatives = cs', round_robin_index = 0\<rparr>))"

text \<open>
  An operation of the rotator returns its result or its exception together with the
  state it leaves behind.
\<close>

definition round_robin_choice :: "rotator \<Rightarrow> (error + creative) \<times> rotator" where
  "round_robin_choice st =
     (let i = round_robin_index st; cs = creatives st
      in if i < length cs
         then (Inr (cs ! i), st\<lparr>round_robin_index := (i + 1) mod length cs\<rparr>)
         else (Inl IndexError, st))"

definition best_ctr_choice :: "nat \<Rightarrow> rotator \<Rightarrow> error + creative" where
  "best_ctr_choice rnd st =
     and_then
       (filter_result
          (\<lambda>c. and_then (getitem ''impressions'' (impressions c)) (\<lambda>i. Inr (i > 0)))
          (creatives st))
       (\<lambda>valid_creatives.
          if valid_creatives = [] then random_choice rnd (creatives st)
          else py_max (\<lambda>x. getitem ''ctr'' (ctr x)) valid_creatives)"

definition lowest_cpc_choice :: "nat \<Rightarrow> rotator \<Rightarrow> error + creative" where
  "lowest_cpc_choice rnd st =
     and_then
       (filter_result
          (\<lambda>c. and_then (getitem ''clicks'' (clicks c)) (\<lambda>k. Inr (k > 0)))
          (creatives st))
       (\<lambda>valid_creatives.
          if valid_creatives = [] then random_choice rnd (creatives st)
          else py_min (\<lambda>x. getitem ''cpc'' (cpc x)) valid_creatives)"

text \<open>
  \<open>choose_next\<close>; \<open>rnd\<close> is the random draw that the fallback of \<open>best_ctr\<close> and
  \<open>lowest_cpc\<close> would make. The last \<open>else\<close> of the source cannot be reached: the
  enum has the three members of the \<open>case\<close>.
\<close>

definition choose_next :: "string \<Rightarrow> nat \<Rightarrow> rotator \<Rightarrow> (error + creative) \<times> rotator" where
  "choose_next strategy rnd st =
     (if creatives st = [] then (Inl (ValueError No_creatives_available), st)
      else
        (case RotationStrategy_of strategy of
           Inl e \<Rightarrow> (Inl e, st)
         | Inr ROUND_ROBIN \<Rightarrow> round_robin_choice st
         | Inr BEST_CTR \<Rightarrow> (best_ctr_choice rnd st, st)
         | Inr LOWEST_CPC \<Rightarrow> (lowest_cpc_choice rnd st, st)))"

definition reset_round_robin :: "rotator \<Rightarrow> rotator" where
  "reset_round_robin st = st\<lparr>round_robin_index := 0\<rparr>"

text \<open>
  \<open>add_creative\<close> computes a missing metric by a conditional expression, which
  evaluates its condition first.
\<close>

definition add_ctr :: "creative \<Rightarrow> error + creative" where
  "add_ctr c =
     (if ctr c = None then
        and_then (getitem ''impressions'' (impressions c)) (\<lambda>i.
          if i > 0 then
            and_then (getitem ''clicks'' (clicks c)) (\<lambda>k.
            and_then (getitem ''impressions'' (impressions c)) (\<lambda>i'.
            Inr (c\<lparr>ctr := Some (Fin (float_mul (int_truediv k i') (int_to_float 100)))\<rparr>)))
          else Inr (c\<lparr>ctr := Some (Fin 0)\<rparr>))
      else Inr c)"

definition add_cpc :: "creative \<Rightarrow> error + creative" where
  "add_cpc c =
     (if cpc c = None then
        and_then (getitem ''clicks'' (clicks c)) (\<lambda>k.
          if k > 0 then
            and_then (getitem ''spend'' (spend c)) (\<lambda>s.
            and_then (getitem ''clicks'' (clicks c)) (\<lambda>k'.
            Inr (c\<lparr>cpc := Some (Fin (float_div s (int_to_float k')))\<rparr>)))
          else Inr (c\<lparr>cpc := Some PInf\<rparr>))
      else Inr c)"

definition add_creative :: "creative \<Rightarrow> rotator \<Rightarrow> (error + unit) \<times> rotator" where
  "add_creative c st =
     (case missing_field c of
        Some f \<Rightarrow> (Inl (ValueError (Missing_required_field f)), st)
      | None \<Rightarrow>
          (case and_then (add_ctr c) add_cpc of
             Inl e \<Rightarrow> (Inl e, st)
           | Inr c' \<Rightarrow> (Inr (), st\<lparr>creatives := creatives st @ [c']\<rparr>)))"

text \<open>
  \<open>remove_creative\<close> rebuilds the list without the records of the given \<open>ad_id\<close>
  and compares the lengths.
\<close>

definition remove_creative :: "string \<Rightarrow> rotator \<Rightarrow> (error + bool) \<times> rotator" where
  "remove_creative aid st =
     (let initial_length = length (creatives st)
      in case filter_result
                (\<lambda>c. and_then (getitem ''ad_id'' (ad_id c)) (\<lambda>a. Inr (a \<noteq> aid)))
                (creatives st) of
           Inl e \<Rightarrow> (Inl e, st)
         | Inr cs' \<Rightarrow>
             if length cs' < initial_length then
               (Inr True,
                \<lparr>creatives = cs',
                 round_robin_index =
                   (if round_robin_index st \<ge> length cs' then 0 else round_robin_index st)\<rparr>)
             else (Inr False, st\<lparr>creatives := cs'\<rparr>))"

text \<open>
  The loop of \<open>simulate_rotation\<close>: \<open>n\<close> more iterations, the next one with index
  \<open>i\<close> (counted from 0); \<open>rnd i\<close> is the random draw of iteration \<open>i\<close>.
\<close>

primrec rotation_loop ::
    "string \<Rightarrow> (nat \<Rightarrow> nat) \<Rightarrow> nat \<Rightarrow> nat \<Rightarrow> rotator \<Rightarrow> (error + (nat \<times> creative) list) \<times> rotator" where
  "rotation_loop strategy rnd 0 i st = (Inr [], st)"
| "rotation_loop strategy rnd (Suc n) i st =
     (case choose_next strategy (rnd i) st of
        (Inl e, st') \<Rightarrow> (Inl e, st')
      | (Inr chosen, st') \<Rightarrow>
          (case rotation_loop strategy rnd n (Suc i) st' of
             (Inl e, st'') \<Rightarrow> (Inl e, st'')
           | (Inr rest, st'') \<Rightarrow> (Inr ((i + 1, chosen) # rest), st'')))"

definition simulate_rotation ::
    "int \<Rightarrow> string \<Rightarrow> (nat \<Rightarrow> nat) \<Rightarrow> rotator \<Rightarrow> (error + (nat \<times> creative) list) \<times> rotator" where
  "simulate_rotation iterations strategy rnd st =
     rotation_loop strategy rnd (nat iterations) 0
       (if strategy = ''round_robin'' then reset_round_robin st else st)"

section \<open>The aggregator (\<open>aggregator.py\<close>)\<close>

text \<open>
  A campaign as \<open>fetch_campaigns\<close> returns it is a dictionary with the five keys
  the aggregator reads, each present or absent. The record the aggregator builds has
  all its seven keys.
\<close>

record campaign =
  campaign_id :: "string option"
  name :: "string option"
  campaign_impressions :: "int option"
  campaign_clicks :: "int option"
  campaign_spend :: "rat option"

record campaign_record =
  platform :: string
  record_campaign_id :: string
  record_name :: string
  record_impressions :: int
  record_clicks :: int
  record_spend :: rat
  ads :: "creative list"

text \<open>
  A platform client (\<open>BaseAdsClient\<close>) is its name and its two abstract methods,
  each returning its result or the exception it raises.
\<close>

record client =
  platform_name :: string
  fetch_campaigns :: "date \<Rightarrow> date \<Rightarrow> error + campaign list"
  fetch_ads :: "string \<Rightarrow> date \<Rightarrow> date \<Rightarrow> error + creative list"

text \<open>The dictionary display \<open>formatted_campaign\<close>, its entries evaluated in order.\<close>

definition formatted_campaign :: "client \<Rightarrow> campaign \<Rightarrow> creative list \<Rightarrow> error + campaign_record" where
  "formatted_campaign cl campaign ads_list =
     and_then (getitem ''campaign_id'' (campaign_id campaign)) (\<lambda>cid.
     and_then (getitem ''name'' (name campaign)) (\<lambda>n.
     and_then (getitem ''impressions'' (campaign_impressions campaign)) (\<lambda>i.
     and_then (getitem ''clicks'' (campaign_clicks campaign)) (\<lambda>k.
     and_then (getitem ''spend'' (campaign_spend campaign)) (\<lambda>s.
     Inr \<lparr>platform = platform_name cl, record_campaign_id = cid, record_name = n,
          record_impressions = i, record_clicks = k, record_spend = s,
          ads = ads_list\<rparr>)))))"

text \<open>
  The body of the loop of \<open>_fetch_client_data\<close>: the \<open>try\<close> block, and the handler
  of \<open>except Exception\<close>, which reads \<open>campaign['campaign_id']\<close> for the log and
  builds the record with no ads; an exception of the handler leaves the function.
\<close>

definition fetch_campaign_entry :: "client \<Rightarrow> date \<Rightarrow> date \<Rightarrow> campaign \<Rightarrow> error + campaign_record" where
  "fetch_campaign_entry cl start_date end_date campaign =
     (case and_then (getitem ''campaign_id'' (campaign_id campaign)) (\<lambda>cid.
           and_then (fetch_ads cl cid start_date end_date) (\<lambda>ads_list.
           formatted_campaign cl campaign ads_list)) of
        Inr r \<Rightarrow> Inr r
      | Inl e \<Rightarrow>
          and_then (getitem ''campaign_id'' (campaign_id campaign)) (\<lambda>_.
          formatted_campaign cl campaign []))"

definition fetch_client_data :: "client \<Rightarrow> date \<Rightarrow> date \<Rightarrow> error + campaign_record list" where
  "fetch_client_data cl start_date end_date =
     and_then (fetch_campaigns cl start_date end_date)
       (traverse (fetch_campaign_entry cl start_date end_date))"

text \<open>
  The loop over the clients, in the order given, with the list \<open>all_data\<close> built so
  far: the data of a client is appended, and an exception of \<open>_fetch_client_data\<close> is
  logged and the loop goes on.
\<close>

primrec collect :: "date \<Rightarrow> date \<Rightarrow> client list \<Rightarrow> campaign_record list \<Rightarrow> campaign_record list" where
  "collect start_date end_date [] all_data = all_data"
| "collect start_date end_date (cl # cls) all_data =
     (case fetch_client_data cl start_date end_date of
        Inr platform_data \<Rightarrow> collect start_date end_date cls (all_data @ platform_data)
      | Inl e \<Rightarrow> collect start_date end_date cls all_data)"

text \<open>
  \<open>aggregate_data\<close>. In the parallel branch one task per client runs
  \<open>_fetch_client_data\<close>, and the results are merged in the order in which
  \<open>as_completed\<close> yields the futures: that order is the parameter \<open>completed\<close>, a
  permutation of the clients, read in this branch only.
\<close>

definition aggregate_data ::
    "client list \<Rightarrow> date \<Rightarrow> date \<Rightarrow> bool \<Rightarrow> client list \<Rightarrow> error + campaign_record list" where
  "aggregate_data clients start_date end_date parallel completed =
     (if parallel \<and> length clients > 1
      then Inr (collect start_date end_date completed [])
      else Inr (collect start_date end_date clients []))"

text \<open>
  The shape of \<open>fetch_campaigns\<close> and \<open>fetch_ads\<close> in the concrete clients
  (\<open>MetaAdsClient\<close>, \<open>GoogleAdsClient\<close>): the date range is validated first; then the
  body runs (here its outcome \<open>body\<close>, which the source draws at random), and an
  exception of the body other than the ones in \<open>passed\<close> becomes
  \<open>DataNotFoundError\<close>.
\<close>

definition guarded_fetch :: "date \<Rightarrow> error set \<Rightarrow> (error + 'a) \<Rightarrow> date \<Rightarrow> date \<Rightarrow> error + 'a" where
  "guarded_fetch today passed body start_date end_date =
     and_then (validate_date_range today start_date end_date) (\<lambda>_.
       case body of
         Inr r \<Rightarrow> Inr r
       | Inl e \<Rightarrow> if e \<in> passed then Inl e else Inl DataNotFoundError)"

text \<open>
  \<open>MetaAdsClient\<close>, with the outcomes of the two randomised bodies as parameters:
  the campaigns or the exception of \<open>fetch_campaigns\<close>, and for \<open>fetch_ads\<close> the
  exception or the ads as a function of the campaign id.
\<close>

definition MetaAdsClient ::
    "date \<Rightarrow> (error + campaign list) \<Rightarrow> (error + (string \<Rightarrow> creative list)) \<Rightarrow> client" where
  "MetaAdsClient today campaigns_outcome ads_outcome =
     \<lparr>platform_name = ''meta'',
      fetch_campaigns =
        guarded_fetch today {AuthenticationError, InvalidTokenError, RateLimitError}
          campaigns_outcome,
      fetch_ads = (\<lambda>cid.
        guarded_fetch today {AuthenticationError, InvalidTokenError}
          (case ads_outcome of Inl e \<Rightarrow> Inl e | Inr f \<Rightarrow> Inr (f cid)))\<rparr>"

text \<open>
  The test double \<open>MockAdsClient\<close> of \<open>tests/test_aggregator.py\<close>: one campaign
  with two ads, or \<open>AdsAPIError\<close> from both methods when \<open>should_fail\<close> is set.
\<close>

definition MockAdsClient :: "string \<Rightarrow> bool \<Rightarrow> client" where
  "MockAdsClient pn should_fail =
     \<lparr>platform_name = pn,
      fetch_campaigns = (\<lambda>start_date end_date.
        if should_fail then Inl AdsAPIError
        else Inr [\<lparr>campaign_id = Some (pn @ ''_camp_1''),
                   name = Some (pn @ '' Campaign 1''),
                   campaign_impressions = Some 1000,
                   campaign_clicks = Some 50,
                   campaign_spend = Some 25\<rparr>]),
      fetch_ads = (\<lambda>cid start_date end_date.
        if should_fail then Inl AdsAPIError
        else Inr [\<lparr>ad_id = Some (cid @ ''_ad_1''), ad_name = Some ''Test Ad 1'',
                   impressions = Some 500, clicks = Some 25, spend = Some (25 / 2),
                   ctr = Some (Fin 5), cpc = Some (Fin (1 / 2))\<rparr>,
                  \<lparr>ad_id = Some (cid @ ''_ad_2''), ad_name = Some ''Test Ad 2'',
                   impressions = Some 500, clicks = Some 25, spend = Some (25 / 2),
                   ctr = Some (Fin 5), cpc = Some (Fin (1 / 2))\<rparr>])\<rparr>"

section \<open>Invariants of the rotator\<close>

text \<open>
  A stored creative is complete: it has the five required fields, checked by
  \<open>_validate_creatives\<close> and \<open>add_creative\<close>, and the two metrics, filled in by
  \<open>_ensure_metrics\<close> and \<open>add_creative\<close>.
\<close>

definition complete :: "creative \<Rightarrow> bool" where
  "complete c \<longleftrightarrow> missing_field c = None \<and> ctr c \<noteq> None \<and> cpc c \<noteq> None"

text \<open>
  The cursor is an index of the collection; when the collection is empty (after removals)
  it is 0.
\<close>

definition cursor_ok :: "rotator \<Rightarrow> bool" where
  "cursor_ok st \<longleftrightarrow>
     round_robin_index st < length (creatives st) \<or>
     (creatives st = [] \<and> round_robin_index st = 0)"

section \<open>Basic facts\<close>

lemma and_then_simps:
  "and_then (Inl e) f = Inl e"
  "and_then (Inr x) f = f x"
  by (simp_all add: and_then_def)

lemma round_half_even_close: "\<bar>of_int (round_half_even x) - x\<bar> \<le> 1 / 2"
proof -
  have a: "of_int \<lfloor>x\<rfloor> \<le> x" by (rule of_int_floor_le)
  have b: "x < of_int \<lfloor>x\<rfloor> + 1" using floor_correct [of x] by simp
  show ?thesis
    unfolding round_half_even_def Let_def using a b
    by (simp add: abs_le_iff; linarith)
qed

text \<open>
  \<open>binade\<close> is the binary exponent, and \<open>double_of x\<close> is a binary64 value (an
  integer of at most 53 bits times the unit of the binade, which is at least
  \<open>2 ^ -1074\<close>) at most half a unit away from \<open>x\<close>.
\<close>

lemma bitlen_rat_bounds:
  assumes "0 < (n::int)"
  shows "(2::rat) powi (bitlen n - 1) \<le> of_int n" and "of_int n < (2::rat) powi (bitlen n)"
proof -
  from bitlen_bounds [OF assms]
  have l: "2 ^ nat (bitlen n - 1) \<le> n" and u: "n < 2 ^ nat (bitlen n)" by simp_all
  have b1: "1 \<le> bitlen n" using assms by (simp add: bitlen_alt_def)
  from l have "(of_int (2 ^ nat (bitlen n - 1)) :: rat) \<le> of_int n"
    by (simp only: of_int_le_iff)
  then show "(2::rat) powi (bitlen n - 1) \<le> of_int n"
    using b1 by (simp add: power_int_def)
  from u have "(of_int n :: rat) < of_int (2 ^ nat (bitlen n))"
    by (simp only: of_int_less_iff)
  then show "of_int n < (2::rat) powi (bitlen n)"
    using b1 by (simp add: power_int_def)
qed

lemma binade_bounds:
  assumes "x \<noteq> 0"
  shows "2 powi (binade x) \<le> \<bar>x\<bar> \<and> \<bar>x\<bar> < 2 powi (binade x + 1)"
proof -
  obtain p q where pq: "quotient_of \<bar>x\<bar> = (p, q)" by (cases "quotient_of \<bar>x\<bar>")
  then have q: "0 < q" by (rule quotient_of_denom_pos)
  from pq have a: "\<bar>x\<bar> = of_int p / of_int q" by (rule quotient_of_div)
  from assms have "0 < \<bar>x\<bar>" by simp
  with a q have p: "0 < p" by (simp add: zero_less_divide_iff)
  define k where "k = bitlen p - bitlen q"
  have qr: "(0::rat) < of_int q" using q by simp
  note P = bitlen_rat_bounds [OF p] and Q = bitlen_rat_bounds [OF q]
  have up: "\<bar>x\<bar> < 2 powi (k + 1)"
  proof -
    have "of_int p < (2::rat) powi (bitlen p)" by (rule P)
    also have "\<dots> = 2 powi (k + 1) * 2 powi (bitlen q - 1)"
      by (simp add: k_def power_int_add [symmetric])
    also have "\<dots> \<le> 2 powi (k + 1) * of_int q"
      using Q(1) by (intro mult_left_mono) simp_all
    finally show ?thesis using qr by (simp add: a pos_divide_less_eq)
  qed
  have lo: "2 powi (k - 1) < \<bar>x\<bar>"
  proof -
    have "(2::rat) powi (k - 1) * of_int q < 2 powi (k - 1) * 2 powi (bitlen q)"
      using Q(2) by (intro mult_strict_left_mono) simp_all
    also have "\<dots> = 2 powi (bitlen p - 1)"
      by (simp add: k_def power_int_add [symmetric])
    also have "\<dots> \<le> of_int p" by (rule P)
    finally show ?thesis using qr by (simp add: a pos_less_divide_eq)
  qed
  have b: "binade x = (if 2 powi k \<le> \<bar>x\<bar> then k else k - 1)"
    by (simp add: binade_def pq k_def Let_def)
  show ?thesis
  proof (cases "2 powi k \<le> \<bar>x\<bar>")
    case True
    with b up show ?thesis by simp
  next
    case False
    with b lo show ?thesis by simp
  qed
qed

lemma double_of_close:
  assumes "x \<noteq> 0"
  shows "\<exists>n::int. double_of x = of_int n * 2 powi (max (binade x) (- 1022) - 52) \<and>
           \<bar>n\<bar> \<le> 2 ^ 53 \<and>
           \<bar>double_of x - x\<bar> \<le> 2 powi (max (binade x) (- 1022) - 52) / 2"
proof -
  define e where "e = max (binade x) (- 1022)"
  define u :: rat where "u = 2 powi (e - 52)"
  define n where "n = round_half_even (x / u)"
  have u: "0 < u" by (simp add: u_def)
  have d: "double_of x = of_int n * u"
    using assms by (simp add: double_of_def Let_def u_def n_def e_def)
  have r: "\<bar>of_int n - x / u\<bar> \<le> 1 / 2" unfolding n_def by (rule round_half_even_close)
  then have "\<bar>of_int n - x / u\<bar> * u \<le> (1 / 2) * u"
    using u by (intro mult_right_mono) simp_all
  moreover have "\<bar>of_int n - x / u\<bar> * u = \<bar>of_int n * u - x\<bar>"
  proof -
    have "(of_int n - x / u) * u = of_int n * u - x" using u by (simp add: field_simps)
    then have "\<bar>of_int n * u - x\<bar> = \<bar>of_int n - x / u\<bar> * \<bar>u\<bar>"
      by (simp only: abs_mult [symmetric])
    with u show ?thesis by simp
  qed
  ultimately have c: "\<bar>double_of x - x\<bar> \<le> u / 2" by (simp add: d)
  have "\<bar>x\<bar> < 2 powi (binade x + 1)" using binade_bounds [OF assms] by simp
  also have "\<dots> \<le> 2 powi (e + 1)"
    by (intro power_int_increasing) (simp_all add: e_def)
  also have "\<dots> = 2 ^ 53 * u"
  proof -
    have "e + 1 = 53 + (e - 52)" by simp
    then have "(2::rat) powi (e + 1) = 2 powi (53 + (e - 52))" by (rule arg_cong)
    also have "\<dots> = 2 powi 53 * 2 powi (e - 52)"
      by (rule power_int_add) simp
    also have "(2::rat) powi 53 = 2 ^ 53" by (simp add: power_int_def)
    finally show ?thesis by (simp only: u_def)
  qed
  finally have "\<bar>x\<bar> / u < 2 ^ 53" using u by (simp add: pos_divide_less_eq)
  then have "\<bar>x / u\<bar> < 2 ^ 53" using u by simp
  with r have "\<bar>(of_int n :: rat)\<bar> < 2 ^ 53 + 1" by linarith
  then have "(of_int \<bar>n\<bar> :: rat) < of_int (2 ^ 53 + 1)" by simp
  then have "\<bar>n\<bar> < 2 ^ 53 + 1" by (simp only: of_int_less_iff)
  then have s: "\<bar>n\<bar> \<le> 2 ^ 53" by simp
  from d s c show ?thesis unfolding u_def e_def by blast
qed

lemma py_round_close:
  "\<exists>m::int. py_round x n = double_of (of_int m / 10 ^ n) \<and>
      \<bar>of_int m / 10 ^ n - x\<bar> \<le> 1 / (2 * 10 ^ n)"
proof -
  define p :: rat where "p = 10 ^ n"
  define a :: rat where "a = of_int (round_half_even (x * p))"
  have p: "0 < p" by (simp add: p_def)
  have "\<bar>a - x * p\<bar> \<le> 1 / 2" unfolding a_def by (rule round_half_even_close)
  then have "\<bar>a - x * p\<bar> / p \<le> (1 / 2) / p"
    using p by (rule_tac divide_right_mono) simp_all
  moreover have "a / p - x = (a - x * p) / p"
    using p by (simp add: field_simps)
  then have "\<bar>a - x * p\<bar> / p = \<bar>a / p - x\<bar>"
    using p by simp
  ultimately have "\<bar>a / p - x\<bar> \<le> 1 / (2 * p)" by simp
  then show ?thesis
    unfolding a_def p_def
    by (intro exI [of _ "round_half_even (x * 10 ^ n)"]) (simp add: py_round_def)
qed

lemma missing_field_None:
  "missing_field c = None \<longleftrightarrow>
     ad_id c \<noteq> None \<and> ad_name c \<noteq> None \<and> impressions c \<noteq> None \<and>
     clicks c \<noteq> None \<and> spend c \<noteq> None"
  by (simp add: missing_field_def)

lemma ensure_one:
  assumes "missing_field c = None"
  shows "and_then (ensure_ctr c) ensure_cpc =
     Inr (c\<lparr>ctr := Some (case ctr c of Some v \<Rightarrow> v
                 | None \<Rightarrow> if 0 < the (impressions c)
                     then Fin (float_mul (int_truediv (the (clicks c)) (the (impressions c)))
                            (int_to_float 100))
                     else Fin 0),
            cpc := Some (case cpc c of Some v \<Rightarrow> v
                 | None \<Rightarrow> if 0 < the (clicks c)
                     then Fin (float_div (the (spend c)) (int_to_float (the (clicks c))))
                     else PInf)\<rparr>)"
  using assms
  by (auto simp: missing_field_None ensure_ctr_def ensure_cpc_def getitem_def and_then_simps)

lemma ensure_metrics_ok:
  "validate_fields cs = Inr () \<Longrightarrow>
   ensure_metrics cs =
     Inr (map (\<lambda>c. c\<lparr>ctr := Some (case ctr c of Some v \<Rightarrow> v
                 | None \<Rightarrow> if 0 < the (impressions c)
                     then Fin (float_mul (int_truediv (the (clicks c)) (the (impressions c)))
                            (int_to_float 100))
                     else Fin 0),
            cpc := Some (case cpc c of Some v \<Rightarrow> v
                 | None \<Rightarrow> if 0 < the (clicks c)
                     then Fin (float_div (the (spend c)) (int_to_float (the (clicks c))))
                     else PInf)\<rparr>) cs)"
proof (induction cs)
  case Nil
  then show ?case by (simp add: ensure_metrics_def)
next
  case (Cons c cs)
  from Cons.prems have m: "missing_field c = None" and v: "validate_fields cs = Inr ()"
    by (auto split: option.splits)
  show ?case
    using Cons.IH [OF v] ensure_one [OF m]
    by (simp add: ensure_metrics_def)
qed

lemma init_ok:
  assumes "validate_creatives cs = Inr ()"
  shows "CreativeRotator_init cs =
     Inr \<lparr>creatives =
            map (\<lambda>c. c\<lparr>ctr := Some (case ctr c of Some v \<Rightarrow> v
                 | None \<Rightarrow> if 0 < the (impressions c)
                     then Fin (float_mul (int_truediv (the (clicks c)) (the (impressions c)))
                            (int_to_float 100))
                     else Fin 0),
            cpc := Some (case cpc c of Some v \<Rightarrow> v
                 | None \<Rightarrow> if 0 < the (clicks c)
                     then Fin (float_div (the (spend c)) (int_to_float (the (clicks c))))
                     else PInf)\<rparr>) cs,
          round_robin_index = 0\<rparr>"
proof -
  from assms have "validate_fields cs = Inr ()"
    by (simp add: validate_creatives_def split: if_splits)
  from ensure_metrics_ok [OF this] assms show ?thesis
    by (simp add: CreativeRotator_init_def and_then_simps)
qed

lemma add_one:
  assumes "missing_field c = None"
  shows "and_then (add_ctr c) add_cpc =
     Inr (c\<lparr>ctr := Some (case ctr c of Some v \<Rightarrow> v
                 | None \<Rightarrow> if 0 < the (impressions c)
                     then Fin (float_mul (int_truediv (the (clicks c)) (the (impressions c)))
                            (int_to_float 100))
                     else Fin 0),
            cpc := Some (case cpc c of Some v \<Rightarrow> v
                 | None \<Rightarrow> if 0 < the (clicks c)
                     then Fin (float_div (the (spend c)) (int_to_float (the (clicks c))))
                     else PInf)\<rparr>)"
  using assms
  by (auto simp: missing_field_None add_ctr_def add_cpc_def getitem_def and_then_simps)

lemma add_creative_ok:
  assumes "missing_field c = None"
  shows "add_creative c st =
     (Inr (), st\<lparr>creatives := creatives st @
        [c\<lparr>ctr := Some (case ctr c of Some v \<Rightarrow> v
                 | None \<Rightarrow> if 0 < the (impressions c)
                     then Fin (float_mul (int_truediv (the (clicks c)) (the (impressions c)))
                            (int_to_float 100))
                     else Fin 0),
            cpc := Some (case cpc c of Some v \<Rightarrow> v
                 | None \<Rightarrow> if 0 < the (clicks c)
                     then Fin (float_div (the (spend c)) (int_to_float (the (clicks c))))
                     else PInf)\<rparr>]\<rparr>)"
  using assms add_one [OF assms] by (simp add: add_creative_def)

section \<open>Click-through rate and cost per click\<close>

text \<open>
  C2, as the spec states it, fails in the rotator: the backfill of \<open>_ensure_metrics\<close>
  does not round. For a creative with 3 impressions and 1 click and no \<open>ctr\<close>, the
  constructor stores the float \<open>1 / 3 * 100\<close>, which is 33.33333333333333, and the
  value rounded to 2 decimal places is the float 33.33.
\<close>

theorem ctr_backfill_counterexample:
  "CreativeRotator_init
     [\<lparr>ad_id = Some ''a'', ad_name = Some ''A'', impressions = Some 3, clicks = Some 1,
       spend = Some 1, ctr = None, cpc = None\<rparr>] =
   Inr \<lparr>creatives =
          [\<lparr>ad_id = Some ''a'', ad_name = Some ''A'', impressions = Some 3, clicks = Some 1,
            spend = Some 1, ctr = Some (Fin (2345624805922133 / 70368744177664)),
            cpc = Some (Fin 1)\<rparr>],
        round_robin_index = 0\<rparr>
   \<and> calculate_ctr 3 1 = Fin (2345390243441541 / 70368744177664)
   \<and> Fin (2345624805922133 / 70368744177664) \<noteq> calculate_ctr 3 1"
  by code_simp

text \<open>
  C2, amended: the platform-client path (\<open>_calculate_ctr\<close>) gives 0.0 when
  impressions is 0 and otherwise the float \<open>(clicks / impressions) * 100\<close> rounded to
  2 decimal places by \<open>round\<close> (the float nearest to a multiple of 0.01 that is at
  most 0.005 away from the float product); the backfill at the construction of a
  rotator, for a creative that has no \<open>ctr\<close>, gives the unrounded float
  \<open>clicks / impressions * 100\<close> when impressions is positive and 0.0 otherwise, and
  keeps a \<open>ctr\<close> that is there.
\<close>

theorem ctr_computation:
  "calculate_ctr i k =
     (if i = 0 then Fin 0
      else Fin (py_round (float_mul (int_truediv k i) (int_to_float 100)) 2))
   \<and> (\<exists>m::int. py_round x 2 = double_of (of_int m / 100) \<and> \<bar>of_int m / 100 - x\<bar> \<le> 1 / 200)
   \<and> (validate_creatives cs = Inr () \<longrightarrow>
        (\<exists>st. CreativeRotator_init cs = Inr st \<and>
           map ctr (creatives st) =
             map (\<lambda>c. Some (case ctr c of
                          Some v \<Rightarrow> v
                        | None \<Rightarrow>
                            if 0 < the (impressions c)
                            then Fin (float_mul (int_truediv (the (clicks c)) (the (impressions c)))
                                   (int_to_float 100))
                            else Fin 0)) cs))"
proof (intro conjI impI)
  show "calculate_ctr i k =
     (if i = 0 then Fin 0
      else Fin (py_round (float_mul (int_truediv k i) (int_to_float 100)) 2))"
    by (simp add: calculate_ctr_def)
  show "\<exists>m::int. py_round x 2 = double_of (of_int m / 100) \<and> \<bar>of_int m / 100 - x\<bar> \<le> 1 / 200"
    using py_round_close [of x 2] by simp
  assume "validate_creatives cs = Inr ()"
  from init_ok [OF this]
  show "\<exists>st. CreativeRotator_init cs = Inr st \<and>
           map ctr (creatives st) =
             map (\<lambda>c. Some (case ctr c of
                          Some v \<Rightarrow> v
                        | None \<Rightarrow>
                            if 0 < the (impressions c)
                            then Fin (float_mul (int_truediv (the (clicks c)) (the (impressions c)))
                                   (int_to_float 100))
                            else Fin 0)) cs"
    by (simp add: comp_def)
qed

theorem ctr_computation_witness:
  "calculate_ctr 0 0 = Fin 0
   \<and> calculate_ctr 1000 50 = Fin 5
   \<and> calculate_ctr 20000 1 = Fin (5764607523034235 / 576460752303423488)
   \<and> calculate_ctr 160 23 = Fin (8089590830664253 / 562949953421312)
   \<and> validate_creatives
        [\<lparr>ad_id = Some ''test'', ad_name = Some ''Test Creative'', impressions = Some 1000,
          clicks = Some 75, spend = Some 50, ctr = None, cpc = None\<rparr>] = Inr ()
   \<and> (\<exists>st. CreativeRotator_init
        [\<lparr>ad_id = Some ''test'', ad_name = Some ''Test Creative'', impressions = Some 1000,
          clicks = Some 75, spend = Some 50, ctr = None, cpc = None\<rparr>] = Inr st
        \<and> map ctr (creatives st) = [Some (Fin (15 / 2))])"
proof -
  have r1: "py_round (float_mul (int_truediv 50 1000) (int_to_float 100)) 2 = 5"
    by code_simp
  have r2: "py_round (float_mul (int_truediv 1 20000) (int_to_float 100)) 2 =
      5764607523034235 / 576460752303423488"
    by code_simp
  have r3: "py_round (float_mul (int_truediv 23 160) (int_to_float 100)) 2 =
      8089590830664253 / 562949953421312"
    by code_simp
  have r4: "float_mul (int_truediv 75 1000) (int_to_float 100) = 15 / 2"
    by code_simp
  have v: "validate_creatives
        [\<lparr>ad_id = Some ''test'', ad_name = Some ''Test Creative'', impressions = Some 1000,
          clicks = Some 75, spend = Some 50, ctr = None, cpc = None\<rparr>] = Inr ()"
    by (simp add: validate_creatives_def missing_field_def)
  have c0: "calculate_ctr 0 0 = Fin 0"
    using ctr_computation [of 0 0] by simp
  have c1: "calculate_ctr 1000 50 = Fin 5"
    using ctr_computation [of 1000 50] r1 by simp
  have c2: "calculate_ctr 20000 1 = Fin (5764607523034235 / 576460752303423488)"
    using ctr_computation [of 20000 1] unfolding r2 [symmetric] by simp
  have c3: "calculate_ctr 160 23 = Fin (8089590830664253 / 562949953421312)"
    using ctr_computation [of 160 23] unfolding r3 [symmetric] by simp
  have c4: "\<exists>st. CreativeRotator_init
        [\<lparr>ad_id = Some ''test'', ad_name = Some ''Test Creative'', impressions = Some 1000,
          clicks = Some 75, spend = Some 50, ctr = None, cpc = None\<rparr>] = Inr st
        \<and> map ctr (creatives st) = [Some (Fin (15 / 2))]"
    using v ctr_computation [of 0 0 0
        "[\<lparr>ad_id = Some ''test'', ad_name = Some ''Test Creative'', impressions = Some 1000,
          clicks = Some 75, spend = Some 50, ctr = None, cpc = None\<rparr>]"]
    unfolding r4 [symmetric] by simp
  from c0 c1 c2 c3 v c4 show ?thesis by (intro conjI)
qed

text \<open>
  C7, as the spec states it, fails for positive clicks: the platform-client path
  rounds. With spend 1 and 3 clicks \<open>_calculate_cpc\<close> returns the float 0.33, which
  is not the float \<open>spend / clicks\<close>, 0.3333333333333333.
\<close>

theorem cpc_rounded_counterexample:
  "calculate_cpc 1 3 = Fin (5944751508129055 / 18014398509481984)
   \<and> float_div 1 (int_to_float 3) = 6004799503160661 / 18014398509481984
   \<and> calculate_cpc 1 3 \<noteq> Fin (float_div 1 (int_to_float 3))"
  by code_simp

text \<open>
  C7, amended: when clicks is 0 the cost per click is 0.0 in the platform-client path
  (\<open>_calculate_cpc\<close>) and \<open>+infinity\<close> in the backfill of the rotator
  (\<open>_ensure_metrics\<close> at construction, and \<open>add_creative\<close>), for every spend; when
  clicks is positive the rotator computes the float \<open>spend / clicks\<close> and the
  platform-client path computes \<open>round(spend / clicks, 2)\<close>, that float rounded to 2
  decimal places. The rotator computes a \<open>cpc\<close> only for a creative that has none.
\<close>

theorem cpc_computation:
  "calculate_cpc s k =
     (if k = 0 then Fin 0 else Fin (py_round (float_div s (int_to_float k)) 2))
   \<and> (validate_creatives cs = Inr () \<longrightarrow>
        (\<exists>st. CreativeRotator_init cs = Inr st \<and>
           map cpc (creatives st) =
             map (\<lambda>c. Some (case cpc c of
                          Some v \<Rightarrow> v
                        | None \<Rightarrow>
                            if 0 < the (clicks c)
                            then Fin (float_div (the (spend c)) (int_to_float (the (clicks c))))
                            else PInf)) cs))
   \<and> (missing_field c = None \<longrightarrow>
        (\<exists>c'. add_creative c st = (Inr (), st\<lparr>creatives := creatives st @ [c']\<rparr>) \<and>
           cpc c' =
             Some (case cpc c of
                     Some v \<Rightarrow> v
                   | None \<Rightarrow>
                       if 0 < the (clicks c)
                       then Fin (float_div (the (spend c)) (int_to_float (the (clicks c))))
                       else PInf)))"
proof (intro conjI impI)
  show "calculate_cpc s k =
     (if k = 0 then Fin 0 else Fin (py_round (float_div s (int_to_float k)) 2))"
    by (simp add: calculate_cpc_def)
next
  assume "validate_creatives cs = Inr ()"
  from init_ok [OF this]
  show "\<exists>st. CreativeRotator_init cs = Inr st \<and>
           map cpc (creatives st) =
             map (\<lambda>c. Some (case cpc c of
                          Some v \<Rightarrow> v
                        | None \<Rightarrow>
                            if 0 < the (clicks c)
                            then Fin (float_div (the (spend c)) (int_to_float (the (clicks c))))
                            else PInf)) cs"
    by (simp add: comp_def)
next
  assume m: "missing_field c = None"
  show "\<exists>c'. add_creative c st = (Inr (), st\<lparr>creatives := creatives st @ [c']\<rparr>) \<and>
           cpc c' =
             Some (case cpc c of
                     Some v \<Rightarrow> v
                   | None \<Rightarrow>
                       if 0 < the (clicks c)
                       then Fin (float_div (the (spend c)) (int_to_float (the (clicks c))))
                       else PInf)"
    by (rule exI, rule conjI, rule add_creative_ok [OF m], simp)
qed

theorem cpc_computation_witness:
  "calculate_cpc 10 0 = Fin 0
   \<and> calculate_cpc 1 40 = Fin (1080863910568919 / 36028797018963968)
   \<and> validate_creatives
        [\<lparr>ad_id = Some ''test'', ad_name = Some ''Test Creative'', impressions = Some 1000,
          clicks = Some 0, spend = Some 10, ctr = None, cpc = None\<rparr>] = Inr ()
   \<and> (\<exists>st. CreativeRotator_init
        [\<lparr>ad_id = Some ''test'', ad_name = Some ''Test Creative'', impressions = Some 1000,
          clicks = Some 0, spend = Some 10, ctr = None, cpc = None\<rparr>] = Inr st
        \<and> map cpc (creatives st) = [Some PInf])
   \<and> missing_field
        \<lparr>ad_id = Some ''ad_4'', ad_name = Some ''Creative D'', impressions = Some 800,
         clicks = Some 32, spend = Some 16, ctr = None, cpc = None\<rparr> = None
   \<and> (\<exists>c'. add_creative
        \<lparr>ad_id = Some ''ad_4'', ad_name = Some ''Creative D'', impressions = Some 800,
         clicks = Some 32, spend = Some 16, ctr = None, cpc = None\<rparr>
        \<lparr>creatives = [], round_robin_index = 0\<rparr> =
          (Inr (), \<lparr>creatives = [c'], round_robin_index = 0\<rparr>)
        \<and> cpc c' = Some (Fin (1 / 2)))"
proof -
  have r1: "py_round (float_div 1 (int_to_float 40)) 2 = 1080863910568919 / 36028797018963968"
    by code_simp
  have r2: "float_div 16 (int_to_float 32) = 1 / 2"
    by code_simp
  have v: "validate_creatives
        [\<lparr>ad_id = Some ''test'', ad_name = Some ''Test Creative'', impressions = Some 1000,
          clicks = Some 0, spend = Some 10, ctr = None, cpc = None\<rparr>] = Inr ()"
    by (simp add: validate_creatives_def missing_field_def)
  have m: "missing_field
        \<lparr>ad_id = Some ''ad_4'', ad_name = Some ''Creative D'', impressions = Some 800,
         clicks = Some 32, spend = Some 16, ctr = None, cpc = None\<rparr> = None"
    by (simp add: missing_field_def)
  have c1: "calculate_cpc 1 40 = Fin (1080863910568919 / 36028797018963968)"
    using cpc_computation [of 1 40] unfolding r1 [symmetric] by simp
  have c2: "calculate_cpc 10 0 = Fin 0
   \<and> (\<exists>st. CreativeRotator_init
        [\<lparr>ad_id = Some ''test'', ad_name = Some ''Test Creative'', impressions = Some 1000,
          clicks = Some 0, spend = Some 10, ctr = None, cpc = None\<rparr>] = Inr st
        \<and> map cpc (creatives st) = [Some PInf])
   \<and> (\<exists>c'. add_creative
        \<lparr>ad_id = Some ''ad_4'', ad_name = Some ''Creative D'', impressions = Some 800,
         clicks = Some 32, spend = Some 16, ctr = None, cpc = None\<rparr>
        \<lparr>creatives = [], round_robin_index = 0\<rparr> =
          (Inr (), \<lparr>creatives = [c'], round_robin_index = 0\<rparr>)
        \<and> cpc c' = Some (Fin (1 / 2)))"
    using v m cpc_computation [of 10 0
        "[\<lparr>ad_id = Some ''test'', ad_name = Some ''Test Creative'', impressions = Some 1000,
          clicks = Some 0, spend = Some 10, ctr = None, cpc = None\<rparr>]"
        "\<lparr>ad_id = Some ''ad_4'', ad_name = Some ''Creative D'', impressions = Some 800,
         clicks = Some 32, spend = Some 16, ctr = None, cpc = None\<rparr>"
        "\<lparr>creatives = [], round_robin_index = 0\<rparr>"]
    unfolding r2 [symmetric] by simp
  from c1 c2 v m show ?thesis by (intro conjI) simp_all
qed

section \<open>Removing a creative\<close>

lemma filter_result_total:
  "\<forall>x\<in>set xs. p x = Inr (q x) \<Longrightarrow> filter_result p xs = Inr (filter q xs)"
  by (induction xs) auto

lemma ad_id_test:
  "ad_id c \<noteq> None \<Longrightarrow>
   and_then (getitem ''ad_id'' (ad_id c)) (\<lambda>a. Inr (a \<noteq> aid)) = Inr (ad_id c \<noteq> Some aid)"
  by (auto simp: getitem_def and_then_simps)

lemma length_filter_less_iff:
  "length (filter q xs) < length xs \<longleftrightarrow> (\<exists>x\<in>set xs. \<not> q x)"
proof
  assume "length (filter q xs) < length xs"
  then have "filter q xs \<noteq> xs" by auto
  then show "\<exists>x\<in>set xs. \<not> q x" by (auto simp: filter_id_conv)
next
  assume "\<exists>x\<in>set xs. \<not> q x"
  then show "length (filter q xs) < length xs" by (auto intro: length_filter_less)
qed

lemma remove_creative_filter:
  assumes "\<forall>c\<in>set (creatives st). ad_id c \<noteq> None"
  shows "remove_creative aid st =
     (if \<exists>c\<in>set (creatives st). ad_id c = Some aid
      then (Inr True,
            \<lparr>creatives = filter (\<lambda>c. ad_id c \<noteq> Some aid) (creatives st),
             round_robin_index =
               (if length (filter (\<lambda>c. ad_id c \<noteq> Some aid) (creatives st)) \<le> round_robin_index st
                then 0 else round_robin_index st)\<rparr>)
      else (Inr False, st))"
proof -
  have f: "filter_result (\<lambda>c. and_then (getitem ''ad_id'' (ad_id c)) (\<lambda>a. Inr (a \<noteq> aid)))
             (creatives st) = Inr (filter (\<lambda>c. ad_id c \<noteq> Some aid) (creatives st))"
    using assms by (intro filter_result_total) (simp add: ad_id_test)
  show ?thesis
  proof (cases "\<exists>c\<in>set (creatives st). ad_id c = Some aid")
    case True
    then have "length (filter (\<lambda>c. ad_id c \<noteq> Some aid) (creatives st)) < length (creatives st)"
      by (simp add: length_filter_less_iff)
    with True f show ?thesis by (simp add: remove_creative_def Let_def)
  next
    case False
    then have "filter (\<lambda>c. ad_id c \<noteq> Some aid) (creatives st) = creatives st"
      by (simp add: filter_id_conv)
    with False f show ?thesis by (simp add: remove_creative_def Let_def)
  qed
qed

lemma filter_single_match:
  "length (filter P xs) \<le> 1 \<Longrightarrow>
   filter (\<lambda>x. \<not> P x) xs = takeWhile (\<lambda>x. \<not> P x) xs @ tl (dropWhile (\<lambda>x. \<not> P x) xs)"
proof (induction xs)
  case Nil
  then show ?case by simp
next
  case (Cons x xs)
  show ?case
  proof (cases "P x")
    case True
    with Cons.prems have "filter P xs = []" by simp
    then have "filter (\<lambda>x. \<not> P x) xs = xs"
      by (simp add: filter_empty_conv filter_id_conv)
    with True show ?thesis by simp
  next
    case False
    with Cons show ?thesis by simp
  qed
qed

text \<open>
  C3, as the spec states it, fails when two records carry the same \<open>ad_id\<close>, which
  neither the constructor nor \<open>add_creative\<close> excludes: \<open>remove_creative\<close> removes
  both, not the first only.
\<close>

theorem remove_creative_duplicates_counterexample:
  "CreativeRotator_init
     [\<lparr>ad_id = Some ''x'', ad_name = Some ''A'', impressions = Some 10, clicks = Some 1,
       spend = Some 1, ctr = Some (Fin 10), cpc = Some (Fin 1)\<rparr>,
      \<lparr>ad_id = Some ''x'', ad_name = Some ''B'', impressions = Some 20, clicks = Some 1,
       spend = Some 1, ctr = Some (Fin 5), cpc = Some (Fin 1)\<rparr>] =
   Inr \<lparr>creatives =
     [\<lparr>ad_id = Some ''x'', ad_name = Some ''A'', impressions = Some 10, clicks = Some 1,
       spend = Some 1, ctr = Some (Fin 10), cpc = Some (Fin 1)\<rparr>,
      \<lparr>ad_id = Some ''x'', ad_name = Some ''B'', impressions = Some 20, clicks = Some 1,
       spend = Some 1, ctr = Some (Fin 5), cpc = Some (Fin 1)\<rparr>],
     round_robin_index = 0\<rparr>
   \<and> remove_creative ''x''
     \<lparr>creatives =
     [\<lparr>ad_id = Some ''x'', ad_name = Some ''A'', impressions = Some 10, clicks = Some 1,
       spend = Some 1, ctr = Some (Fin 10), cpc = Some (Fin 1)\<rparr>,
      \<lparr>ad_id = Some ''x'', ad_name = Some ''B'', impressions = Some 20, clicks = Some 1,
       spend = Some 1, ctr = Some (Fin 5), cpc = Some (Fin 1)\<rparr>],
     round_robin_index = 0\<rparr> =
   (Inr True, \<lparr>creatives = [], round_robin_index = 0\<rparr>)"
  by code_simp

text \<open>
  C3, amended: for every rotator state whose records have an \<open>ad_id\<close> (as every
  validated record has) and every \<open>adId\<close>, \<open>remove_creative(adId)\<close> removes every
  record whose \<open>ad_id\<close> equals \<open>adId\<close> and returns true when there is one; that is
  the removal of the first matching record when at most one record matches. When no
  record matches it returns false and the collection and the cursor are unchanged.
  After a removal, a cursor that is not below the new length is reset to 0.
\<close>

theorem remove_creative_spec:
  "((\<forall>c\<in>set (creatives st). ad_id c \<noteq> None) \<longrightarrow>
      remove_creative aid st =
        (if \<exists>c\<in>set (creatives st). ad_id c = Some aid
         then (Inr True,
               \<lparr>creatives = filter (\<lambda>c. ad_id c \<noteq> Some aid) (creatives st),
                round_robin_index =
                  (if length (filter (\<lambda>c. ad_id c \<noteq> Some aid) (creatives st))
                        \<le> round_robin_index st
                   then 0 else round_robin_index st)\<rparr>)
         else (Inr False, st)))
   \<and> (length (filter (\<lambda>c. ad_id c = Some aid) (creatives st)) \<le> 1 \<longrightarrow>
        filter (\<lambda>c. ad_id c \<noteq> Some aid) (creatives st) =
          takeWhile (\<lambda>c. ad_id c \<noteq> Some aid) (creatives st) @
          tl (dropWhile (\<lambda>c. ad_id c \<noteq> Some aid) (creatives st)))"
  using remove_creative_filter [of st aid]
    filter_single_match [of "\<lambda>c. ad_id c = Some aid" "creatives st"]
  by blast

theorem remove_creative_spec_witness:
  "remove_creative ''ad_3''
     \<lparr>creatives =
        [\<lparr>ad_id = Some ''ad_1'', ad_name = Some ''Creative A'', impressions = Some 1000,
          clicks = Some 50, spend = Some 25, ctr = Some (Fin 5), cpc = Some (Fin (1 / 2))\<rparr>,
         \<lparr>ad_id = Some ''ad_2'', ad_name = Some ''Creative B'', impressions = Some 2000,
          clicks = Some 40, spend = Some 20, ctr = Some (Fin 2), cpc = Some (Fin (1 / 2))\<rparr>,
         \<lparr>ad_id = Some ''ad_3'', ad_name = Some ''Creative C'', impressions = Some 500,
          clicks = Some 25, spend = Some (25 / 2), ctr = Some (Fin 5), cpc = Some (Fin (1 / 2))\<rparr>],
      round_robin_index = 2\<rparr> =
   (Inr True,
    \<lparr>creatives =
        [\<lparr>ad_id = Some ''ad_1'', ad_name = Some ''Creative A'', impressions = Some 1000,
          clicks = Some 50, spend = Some 25, ctr = Some (Fin 5), cpc = Some (Fin (1 / 2))\<rparr>,
         \<lparr>ad_id = Some ''ad_2'', ad_name = Some ''Creative B'', impressions = Some 2000,
          clicks = Some 40, spend = Some 20, ctr = Some (Fin 2), cpc = Some (Fin (1 / 2))\<rparr>],
      round_robin_index = 0\<rparr>)
   \<and> remove_creative ''nonexistent''
     \<lparr>creatives =
        [\<lparr>ad_id = Some ''ad_1'', ad_name = Some ''Creative A'', impressions = Some 1000,
          clicks = Some 50, spend = Some 25, ctr = Some (Fin 5), cpc = Some (Fin (1 / 2))\<rparr>],
      round_robin_index = 0\<rparr> =
   (Inr False,
    \<lparr>creatives =
        [\<lparr>ad_id = Some ''ad_1'', ad_name = Some ''Creative A'', impressions = Some 1000,
          clicks = Some 50, spend = Some 25, ctr = Some (Fin 5), cpc = Some (Fin (1 / 2))\<rparr>],
      round_robin_index = 0\<rparr>)"
  using remove_creative_spec [of
     "\<lparr>creatives =
        [\<lparr>ad_id = Some ''ad_1'', ad_name = Some ''Creative A'', impressions = Some 1000,
          clicks = Some 50, spend = Some 25, ctr = Some (Fin 5), cpc = Some (Fin (1 / 2))\<rparr>,
         \<lparr>ad_id = Some ''ad_2'', ad_name = Some ''Creative B'', impressions = Some 2000,
          clicks = Some 40, spend = Some 20, ctr = Some (Fin 2), cpc = Some (Fin (1 / 2))\<rparr>,
         \<lparr>ad_id = Some ''ad_3'', ad_name = Some ''Creative C'', impressions = Some 500,
          clicks = Some 25, spend = Some (25 / 2), ctr = Some (Fin 5), cpc = Some (Fin (1 / 2))\<rparr>],
      round_robin_index = 2\<rparr>" "''ad_3''"]
    remove_creative_spec [of
     "\<lparr>creatives =
        [\<lparr>ad_id = Some ''ad_1'', ad_name = Some ''Creative A'', impressions = Some 1000,
          clicks = Some 50, spend = Some 25, ctr = Some (Fin 5), cpc = Some (Fin (1 / 2))\<rparr>],
      round_robin_index = 0\<rparr>" "''nonexistent''"]
  by simp

section \<open>The cursor invariant\<close>

lemma init_validated:
  assumes "CreativeRotator_init cs = Inr st"
  shows "validate_creatives cs = Inr ()"
  using assms by (cases "validate_creatives cs") (simp_all add: CreativeRotator_init_def and_then_simps)

lemma init_cursor_ok:
  assumes "CreativeRotator_init cs = Inr st"
  shows "cursor_ok st"
proof -
  have v: "validate_creatives cs = Inr ()" using assms by (rule init_validated)
  then have "cs \<noteq> []" by (auto simp: validate_creatives_def)
  with init_ok [OF v] assms show ?thesis by (auto simp: cursor_ok_def)
qed

lemma init_empty: "CreativeRotator_init [] = Inl (ValueError Empty_creative_list)"
  by (simp add: CreativeRotator_init_def validate_creatives_def and_then_simps)

lemma round_robin_choice_cursor_ok:
  assumes "cursor_ok st"
  shows "cursor_ok (snd (round_robin_choice st))"
proof (cases "round_robin_index st < length (creatives st)")
  case True
  then have "0 < length (creatives st)" by (cases "creatives st") simp_all
  then have "(round_robin_index st + 1) mod length (creatives st) < length (creatives st)"
    by (rule mod_less_divisor)
  with True show ?thesis
    by (simp add: round_robin_choice_def Let_def cursor_ok_def)
next
  case False
  with assms show ?thesis by (simp add: round_robin_choice_def Let_def)
qed

lemma choose_next_cursor_ok:
  "cursor_ok st \<Longrightarrow> cursor_ok (snd (choose_next s r st))"
  by (auto simp: choose_next_def round_robin_choice_cursor_ok
           split: sum.splits RotationStrategy.splits)

lemma add_creative_cursor_ok:
  "cursor_ok st \<Longrightarrow> cursor_ok (snd (add_creative c st))"
  by (auto simp: add_creative_def cursor_ok_def split: option.splits sum.splits)

lemma remove_creative_cursor_ok:
  "cursor_ok st \<Longrightarrow> cursor_ok (snd (remove_creative a st))"
proof (cases "filter_result (\<lambda>c. and_then (getitem ''ad_id'' (ad_id c)) (\<lambda>x. Inr (x \<noteq> a)))
                (creatives st)")
  case (Inl e)
  assume "cursor_ok st"
  with Inl show ?thesis by (simp add: remove_creative_def Let_def)
next
  case (Inr cs')
  assume "cursor_ok st"
  with Inr show ?thesis
    by (auto simp: remove_creative_def Let_def cursor_ok_def)
qed

lemma reset_round_robin_cursor_ok:
  "cursor_ok st \<Longrightarrow> cursor_ok (reset_round_robin st)"
  by (auto simp: reset_round_robin_def cursor_ok_def)

lemma rotation_loop_cursor_ok:
  "cursor_ok st \<Longrightarrow> cursor_ok (snd (rotation_loop s rnd n i st))"
proof (induction n arbitrary: i st)
  case 0
  then show ?case by simp
next
  case (Suc n)
  obtain r st' where c: "choose_next s (rnd i) st = (r, st')" by (cases "choose_next s (rnd i) st")
  with choose_next_cursor_ok [OF Suc.prems, of s "rnd i"] have ok: "cursor_ok st'" by simp
  show ?case
  proof (cases r)
    case (Inl e)
    with c ok show ?thesis by simp
  next
    case (Inr chosen)
    obtain q st'' where l: "rotation_loop s rnd n (Suc i) st' = (q, st'')"
      by (cases "rotation_loop s rnd n (Suc i) st'")
    with Suc.IH [OF ok, of "Suc i"] have "cursor_ok st''" by simp
    with c Inr l show ?thesis by (cases q) simp_all
  qed
qed

lemma simulate_rotation_cursor_ok:
  "cursor_ok st \<Longrightarrow> cursor_ok (snd (simulate_rotation n s rnd st))"
  by (simp add: simulate_rotation_def rotation_loop_cursor_ok reset_round_robin_cursor_ok)

text \<open>
  C4: the constructor rejects an empty list, and the state it builds otherwise has its
  cursor in range; every operation, whether it returns or raises, leaves a state whose
  cursor is in range when it started from one (in a state with no creatives, which
  removals can reach, the cursor is 0); and in such a state with a non-empty collection
  \<open>0 \<le> cursor < len(creatives)\<close>.
\<close>

theorem cursor_invariant:
  "CreativeRotator_init [] = Inl (ValueError Empty_creative_list)
   \<and> (CreativeRotator_init cs = Inr st0 \<longrightarrow>
        creatives st0 \<noteq> [] \<and> round_robin_index st0 < length (creatives st0) \<and> cursor_ok st0)
   \<and> (cursor_ok st \<longrightarrow>
        cursor_ok (snd (choose_next s r st)) \<and>
        cursor_ok (snd (add_creative c st)) \<and>
        cursor_ok (snd (remove_creative a st)) \<and>
        cursor_ok (reset_round_robin st) \<and>
        cursor_ok (snd (simulate_rotation n s rnd st)))
   \<and> (round_robin_index st < length (creatives st) \<longrightarrow> cursor_ok st)
   \<and> (cursor_ok st \<and> creatives st \<noteq> [] \<longrightarrow>
        0 \<le> round_robin_index st \<and> round_robin_index st < length (creatives st))"
proof (intro conjI impI)
  show "CreativeRotator_init [] = Inl (ValueError Empty_creative_list)"
    by (rule init_empty)
next
  assume i: "CreativeRotator_init cs = Inr st0"
  have v: "validate_creatives cs = Inr ()" using i by (rule init_validated)
  then have "cs \<noteq> []" by (auto simp: validate_creatives_def)
  with init_ok [OF v] i show "creatives st0 \<noteq> []" by auto
  with init_cursor_ok [OF i] show "round_robin_index st0 < length (creatives st0)"
    by (simp add: cursor_ok_def)
  show "cursor_ok st0" using i by (rule init_cursor_ok)
next
  assume ok: "cursor_ok st"
  show "cursor_ok (snd (choose_next s r st))" using ok by (rule choose_next_cursor_ok)
  show "cursor_ok (snd (add_creative c st))" using ok by (rule add_creative_cursor_ok)
  show "cursor_ok (snd (remove_creative a st))" using ok by (rule remove_creative_cursor_ok)
  show "cursor_ok (reset_round_robin st)" using ok by (rule reset_round_robin_cursor_ok)
  show "cursor_ok (snd (simulate_rotation n s rnd st))"
    using ok by (rule simulate_rotation_cursor_ok)
next
  assume "round_robin_index st < length (creatives st)"
  then show "cursor_ok st" by (simp add: cursor_ok_def)
next
  assume "cursor_ok st \<and> creatives st \<noteq> []"
  then show "round_robin_index st < length (creatives st)" by (auto simp: cursor_ok_def)
qed simp

theorem cursor_invariant_witness:
  "CreativeRotator_init
     [\<lparr>ad_id = Some ''ad_1'', ad_name = Some ''Creative A'', impressions = Some 1000,
       clicks = Some 50, spend = Some 25, ctr = Some (Fin 5), cpc = Some (Fin (1 / 2))\<rparr>] =
   Inr \<lparr>creatives =
     [\<lparr>ad_id = Some ''ad_1'', ad_name = Some ''Creative A'', impressions = Some 1000,
       clicks = Some 50, spend = Some 25, ctr = Some (Fin 5), cpc = Some (Fin (1 / 2))\<rparr>],
     round_robin_index = 0\<rparr>
   \<and> cursor_ok \<lparr>creatives =
     [\<lparr>ad_id = Some ''ad_1'', ad_name = Some ''Creative A'', impressions = Some 1000,
       clicks = Some 50, spend = Some 25, ctr = Some (Fin 5), cpc = Some (Fin (1 / 2))\<rparr>],
     round_robin_index = 0\<rparr>
   \<and> cursor_ok (snd (remove_creative ''ad_1'' \<lparr>creatives =
     [\<lparr>ad_id = Some ''ad_1'', ad_name = Some ''Creative A'', impressions = Some 1000,
       clicks = Some 50, spend = Some 25, ctr = Some (Fin 5), cpc = Some (Fin (1 / 2))\<rparr>],
     round_robin_index = 0\<rparr>))
   \<and> cursor_ok (snd (choose_next ''round_robin'' 0 \<lparr>creatives =
     [\<lparr>ad_id = Some ''ad_1'', ad_name = Some ''Creative A'', impressions = Some 1000,
       clicks = Some 50, spend = Some 25, ctr = Some (Fin 5), cpc = Some (Fin (1 / 2))\<rparr>],
     round_robin_index = 0\<rparr>))"
proof -
  have i: "CreativeRotator_init
     [\<lparr>ad_id = Some ''ad_1'', ad_name = Some ''Creative A'', impressions = Some 1000,
       clicks = Some 50, spend = Some 25, ctr = Some (Fin 5), cpc = Some (Fin (1 / 2))\<rparr>] =
   Inr \<lparr>creatives =
     [\<lparr>ad_id = Some ''ad_1'', ad_name = Some ''Creative A'', impressions = Some 1000,
       clicks = Some 50, spend = Some 25, ctr = Some (Fin 5), cpc = Some (Fin (1 / 2))\<rparr>],
     round_robin_index = 0\<rparr>"
    by code_simp
  from i cursor_invariant [of
     "[\<lparr>ad_id = Some ''ad_1'', ad_name = Some ''Creative A'', impressions = Some 1000,
       clicks = Some 50, spend = Some 25, ctr = Some (Fin 5), cpc = Some (Fin (1 / 2))\<rparr>]"
     "\<lparr>creatives =
     [\<lparr>ad_id = Some ''ad_1'', ad_name = Some ''Creative A'', impressions = Some 1000,
       clicks = Some 50, spend = Some 25, ctr = Some (Fin 5), cpc = Some (Fin (1 / 2))\<rparr>],
     round_robin_index = 0\<rparr>"
     "\<lparr>creatives =
     [\<lparr>ad_id = Some ''ad_1'', ad_name = Some ''Creative A'', impressions = Some 1000,
       clicks = Some 50, spend = Some 25, ctr = Some (Fin 5), cpc = Some (Fin (1 / 2))\<rparr>],
     round_robin_index = 0\<rparr>" "''round_robin''" 0 _ "''ad_1''"]
  show ?thesis by blast
qed

section \<open>Complete creatives\<close>

lemma init_complete:
  assumes "CreativeRotator_init cs = Inr st"
  shows "\<forall>c\<in>set (creatives st). complete c"
proof -
  have v: "validate_creatives cs = Inr ()" using assms by (rule init_validated)
  then have f: "validate_fields cs = Inr ()"
    by (simp add: validate_creatives_def split: if_splits)
  have m: "\<forall>c\<in>set cs. missing_field c = None" if "validate_fields cs = Inr ()" for cs
    using that by (induction cs) (auto split: option.splits)
  from init_ok [OF v] assms m [OF f] show ?thesis
    by (auto simp: complete_def missing_field_None)
qed

lemma add_creative_complete:
  assumes "\<forall>x\<in>set (creatives st). complete x"
  shows "\<forall>x\<in>set (creatives (snd (add_creative c st))). complete x"
proof (cases "missing_field c")
  case None
  from add_creative_ok [OF None, of st] assms None show ?thesis
    by (auto simp: complete_def missing_field_None)
next
  case (Some f)
  with assms show ?thesis by (simp add: add_creative_def)
qed

lemma complete_ad_id: "complete c \<Longrightarrow> ad_id c \<noteq> None"
  by (simp add: complete_def missing_field_None)

lemma remove_creative_complete:
  assumes "\<forall>x\<in>set (creatives st). complete x"
  shows "\<forall>x\<in>set (creatives (snd (remove_creative a st))). complete x"
proof -
  from assms have "\<forall>c\<in>set (creatives st). ad_id c \<noteq> None"
    by (simp add: complete_ad_id)
  from remove_creative_filter [OF this, of a] assms show ?thesis by auto
qed

lemma choose_next_creatives: "creatives (snd (choose_next s r st)) = creatives st"
  by (auto simp: choose_next_def round_robin_choice_def Let_def
           split: sum.splits RotationStrategy.splits)

section \<open>The empty collection\<close>

text \<open>
  C10: the collection becomes empty when the only creative of a rotator is removed
  (construction succeeds for one creative with the required fields), and with an empty
  collection \<open>choose_next\<close> raises the \<open>ValueError\<close> of its first check for every
  strategy string, also one that names no strategy, and leaves the state as it is.
\<close>

theorem empty_collection_raises:
  "(missing_field c = None \<and> ad_id c = Some a \<longrightarrow>
      (\<exists>st. CreativeRotator_init [c] = Inr st \<and> creatives st \<noteq> [] \<and>
         remove_creative a st = (Inr True, \<lparr>creatives = [], round_robin_index = 0\<rparr>)))
   \<and> (creatives st = [] \<longrightarrow>
        choose_next strategy rnd st = (Inl (ValueError No_creatives_available), st))"
proof -
  have a: "\<exists>st. CreativeRotator_init [c] = Inr st \<and> creatives st \<noteq> [] \<and>
         remove_creative a st = (Inr True, \<lparr>creatives = [], round_robin_index = 0\<rparr>)"
    if m: "missing_field c = None" and i: "ad_id c = Some a"
  proof -
    have v: "validate_creatives [c] = Inr ()"
      using m by (simp add: validate_creatives_def)
    from init_ok [OF v] obtain st where
      st: "CreativeRotator_init [c] = Inr st" and
      cs: "map ad_id (creatives st) = [Some a]" and
      ix: "round_robin_index st = 0"
      using i by auto
    from cs obtain c' where c': "creatives st = [c']" "ad_id c' = Some a" by auto
    then have "\<forall>x\<in>set (creatives st). ad_id x \<noteq> None" by simp
    from remove_creative_filter [OF this, of a] c' ix
    have "remove_creative a st = (Inr True, \<lparr>creatives = [], round_robin_index = 0\<rparr>)"
      by simp
    with st c' show ?thesis by auto
  qed
  have b: "choose_next strategy rnd st = (Inl (ValueError No_creatives_available), st)"
    if "creatives st = []"
    using that by (simp add: choose_next_def)
  from a b show ?thesis by blast
qed

theorem empty_collection_raises_witness:
  "(\<exists>st. CreativeRotator_init
       [\<lparr>ad_id = Some ''ad_1'', ad_name = Some ''Creative A'', impressions = Some 1000,
         clicks = Some 50, spend = Some 25, ctr = Some (Fin 5), cpc = Some (Fin (1 / 2))\<rparr>] = Inr st
      \<and> creatives st \<noteq> []
      \<and> remove_creative ''ad_1'' st = (Inr True, \<lparr>creatives = [], round_robin_index = 0\<rparr>))
   \<and> choose_next ''round_robin'' 0 \<lparr>creatives = [], round_robin_index = 0\<rparr> =
       (Inl (ValueError No_creatives_available), \<lparr>creatives = [], round_robin_index = 0\<rparr>)
   \<and> choose_next ''best_ctr'' 7 \<lparr>creatives = [], round_robin_index = 0\<rparr> =
       (Inl (ValueError No_creatives_available), \<lparr>creatives = [], round_robin_index = 0\<rparr>)
   \<and> choose_next ''lowest_cpc'' 3 \<lparr>creatives = [], round_robin_index = 0\<rparr> =
       (Inl (ValueError No_creatives_available), \<lparr>creatives = [], round_robin_index = 0\<rparr>)
   \<and> choose_next ''no_such_strategy'' 0 \<lparr>creatives = [], round_robin_index = 0\<rparr> =
       (Inl (ValueError No_creatives_available), \<lparr>creatives = [], round_robin_index = 0\<rparr>)"
  using empty_collection_raises [of
       "\<lparr>ad_id = Some ''ad_1'', ad_name = Some ''Creative A'', impressions = Some 1000,
         clicks = Some 50, spend = Some 25, ctr = Some (Fin 5), cpc = Some (Fin (1 / 2))\<rparr>"
       "''ad_1''" "\<lparr>creatives = [], round_robin_index = 0\<rparr>" "''round_robin''" 0]
     empty_collection_raises [of
       "\<lparr>ad_id = Some ''ad_1'', ad_name = Some ''Creative A'', impressions = Some 1000,
         clicks = Some 50, spend = Some 25, ctr = Some (Fin 5), cpc = Some (Fin (1 / 2))\<rparr>"
       "''ad_1''" "\<lparr>creatives = [], round_robin_index = 0\<rparr>" "''best_ctr''" 7]
     empty_collection_raises [of
       "\<lparr>ad_id = Some ''ad_1'', ad_name = Some ''Creative A'', impressions = Some 1000,
         clicks = Some 50, spend = Some 25, ctr = Some (Fin 5), cpc = Some (Fin (1 / 2))\<rparr>"
       "''ad_1''" "\<lparr>creatives = [], round_robin_index = 0\<rparr>" "''lowest_cpc''" 3]
     empty_collection_raises [of
       "\<lparr>ad_id = Some ''ad_1'', ad_name = Some ''Creative A'', impressions = Some 1000,
         clicks = Some 50, spend = Some 25, ctr = Some (Fin 5), cpc = Some (Fin (1 / 2))\<rparr>"
       "''ad_1''" "\<lparr>creatives = [], round_robin_index = 0\<rparr>" "''no_such_strategy''" 0]
  by (simp add: missing_field_def)

section \<open>Round robin\<close>

lemma strategy_round_robin: "RotationStrategy_of ''round_robin'' = Inr ROUND_ROBIN"
  by (simp add: RotationStrategy_of_def)

lemma choose_next_round_robin:
  assumes "round_robin_index st < length (creatives st)"
  shows "choose_next ''round_robin'' r st =
     (Inr (creatives st ! round_robin_index st),
      st\<lparr>round_robin_index := Suc (round_robin_index st) mod length (creatives st)\<rparr>)"
proof -
  from assms have "creatives st \<noteq> []" by auto
  with assms show ?thesis
    by (simp add: choose_next_def strategy_round_robin round_robin_choice_def Let_def)
qed

lemma rotation_loop_round_robin:
  assumes "round_robin_index st < length (creatives st)"
  shows "rotation_loop ''round_robin'' rnd n i st =
     (Inr (map (\<lambda>k. (i + k + 1, creatives st ! ((round_robin_index st + k) mod length (creatives st))))
             [0..<n]),
      st\<lparr>round_robin_index := (round_robin_index st + n) mod length (creatives st)\<rparr>)"
  using assms
proof (induction n arbitrary: i st)
  case 0
  then show ?case by simp
next
  case (Suc n)
  define cs where "cs = creatives st"
  define j where "j = round_robin_index st"
  define st' where "st' = st\<lparr>round_robin_index := Suc j mod length cs\<rparr>"
  from Suc.prems have jl: "j < length cs" by (simp add: j_def cs_def)
  then have pos: "0 < length cs" by auto
  have c': "creatives st' = cs" and i': "round_robin_index st' = Suc j mod length cs"
    by (simp_all add: st'_def cs_def)
  have "round_robin_index st' < length (creatives st')"
    using pos by (simp add: c' i')
  from Suc.IH [OF this, of "Suc i"]
  have ih: "rotation_loop ''round_robin'' rnd n (Suc i) st' =
     (Inr (map (\<lambda>k. (Suc i + k + 1, cs ! ((Suc j mod length cs + k) mod length cs))) [0..<n]),
      st'\<lparr>round_robin_index := (Suc j mod length cs + n) mod length cs\<rparr>)"
    by (simp add: c' i')
  have ch: "choose_next ''round_robin'' (rnd i) st = (Inr (cs ! j), st')"
    using choose_next_round_robin [OF Suc.prems, of "rnd i"]
    by (simp add: st'_def cs_def j_def)
  have m: "(Suc j mod length cs + k) mod length cs = (j + Suc k) mod length cs" for k
    by (metis add_Suc add_Suc_right mod_add_left_eq)
  have u: "[0..<Suc n] = 0 # map Suc [0..<n]"
    by (simp add: upt_conv_Cons map_Suc_upt del: upt_Suc)
  have "rotation_loop ''round_robin'' rnd (Suc n) i st =
     (Inr ((i + 1, cs ! j) #
        map (\<lambda>k. (Suc i + k + 1, cs ! ((j + Suc k) mod length cs))) [0..<n]),
      st'\<lparr>round_robin_index := (j + Suc n) mod length cs\<rparr>)"
    by (simp add: ch ih m)
  also have "\<dots> =
     (Inr (map (\<lambda>k. (i + k + 1, cs ! ((j + k) mod length cs))) [0..<Suc n]),
      st\<lparr>round_robin_index := (j + Suc n) mod length cs\<rparr>)"
    unfolding u using jl by (simp add: st'_def comp_def del: upt_Suc)
  finally show ?case by (simp only: cs_def j_def)
qed

text \<open>
  C8: in a state whose collection is non-empty and whose cursor is in range,
  \<open>choose_next\<close> with \<open>round_robin\<close> returns the creative at the cursor and moves the
  cursor to \<open>(cursor + 1) mod len(creatives)\<close>. Started at cursor 0, \<open>n\<close> successive
  calls (the loop of \<open>simulate_rotation\<close>, which numbers them from 1) return the
  creatives at the indices \<open>0 mod len, 1 mod len, ...\<close>: over \<open>[A, B, C]\<close> the
  sequence \<open>A, B, C, A, B, C, ...\<close>, for every \<open>n\<close>. After \<open>reset_round_robin\<close> the
  next call returns the first creative.
\<close>

theorem round_robin_cycle:
  "(creatives st \<noteq> [] \<and> cursor_ok st \<longrightarrow>
      choose_next ''round_robin'' r st =
        (Inr (creatives st ! round_robin_index st),
         st\<lparr>round_robin_index := (round_robin_index st + 1) mod length (creatives st)\<rparr>))
   \<and> (cs \<noteq> [] \<longrightarrow>
        fst (rotation_loop ''round_robin'' rnd n 0 \<lparr>creatives = cs, round_robin_index = 0\<rparr>) =
          Inr (map (\<lambda>k. (k + 1, cs ! (k mod length cs))) [0..<n]))
   \<and> fst (rotation_loop ''round_robin'' rnd n 0 \<lparr>creatives = [A, B, C], round_robin_index = 0\<rparr>) =
        Inr (map (\<lambda>k. (k + 1, [A, B, C] ! (k mod 3))) [0..<n])
   \<and> (creatives st \<noteq> [] \<longrightarrow>
        fst (choose_next ''round_robin'' r (reset_round_robin st)) = Inr (creatives st ! 0) \<and>
        fst (simulate_rotation (int n) ''round_robin'' rnd st) =
          Inr (map (\<lambda>k. (k + 1, creatives st ! (k mod length (creatives st)))) [0..<n]))"
proof (intro conjI impI)
  assume "creatives st \<noteq> [] \<and> cursor_ok st"
  then have "round_robin_index st < length (creatives st)"
    by (auto simp: cursor_ok_def)
  from choose_next_round_robin [OF this, of r]
  show "choose_next ''round_robin'' r st =
        (Inr (creatives st ! round_robin_index st),
         st\<lparr>round_robin_index := (round_robin_index st + 1) mod length (creatives st)\<rparr>)"
    by simp
next
  assume "cs \<noteq> []"
  then have "round_robin_index \<lparr>creatives = cs, round_robin_index = 0\<rparr>
      < length (creatives \<lparr>creatives = cs, round_robin_index = 0\<rparr>)" by simp
  from rotation_loop_round_robin [OF this, of rnd n 0]
  show "fst (rotation_loop ''round_robin'' rnd n 0 \<lparr>creatives = cs, round_robin_index = 0\<rparr>) =
          Inr (map (\<lambda>k. (k + 1, cs ! (k mod length cs))) [0..<n])"
    by simp
next
  have "round_robin_index \<lparr>creatives = [A, B, C], round_robin_index = 0\<rparr>
      < length (creatives \<lparr>creatives = [A, B, C], round_robin_index = 0\<rparr>)" by simp
  from rotation_loop_round_robin [OF this, of rnd n 0]
  show "fst (rotation_loop ''round_robin'' rnd n 0 \<lparr>creatives = [A, B, C], round_robin_index = 0\<rparr>) =
        Inr (map (\<lambda>k. (k + 1, [A, B, C] ! (k mod 3))) [0..<n])"
    by simp
next
  assume ne: "creatives st \<noteq> []"
  then have pos: "0 < length (creatives st)" by simp
  have rs: "round_robin_index (reset_round_robin st) < length (creatives (reset_round_robin st))"
    using pos by (simp add: reset_round_robin_def)
  have rc: "creatives (reset_round_robin st) = creatives st"
    and ri: "round_robin_index (reset_round_robin st) = 0"
    by (simp_all add: reset_round_robin_def)
  show "fst (choose_next ''round_robin'' r (reset_round_robin st)) = Inr (creatives st ! 0)"
    by (simp add: choose_next_round_robin [OF rs] rc ri)
  show "fst (simulate_rotation (int n) ''round_robin'' rnd st) =
          Inr (map (\<lambda>k. (k + 1, creatives st ! (k mod length (creatives st)))) [0..<n])"
    unfolding simulate_rotation_def
    by (simp add: rotation_loop_round_robin [OF rs] rc ri)
qed

theorem round_robin_cycle_witness:
  "cursor_ok
     \<lparr>creatives =
        [\<lparr>ad_id = Some ''ad_1'', ad_name = Some ''Creative A'', impressions = Some 1000,
          clicks = Some 50, spend = Some 25, ctr = Some (Fin 5), cpc = Some (Fin (1 / 2))\<rparr>,
         \<lparr>ad_id = Some ''ad_2'', ad_name = Some ''Creative B'', impressions = Some 2000,
          clicks = Some 40, spend = Some 20, ctr = Some (Fin 2), cpc = Some (Fin (1 / 2))\<rparr>,
         \<lparr>ad_id = Some ''ad_3'', ad_name = Some ''Creative C'', impressions = Some 500,
          clicks = Some 25, spend = Some (25 / 2), ctr = Some (Fin 5), cpc = Some (Fin (1 / 2))\<rparr>],
      round_robin_index = 2\<rparr>
   \<and> choose_next ''round_robin'' 0
     \<lparr>creatives =
        [\<lparr>ad_id = Some ''ad_1'', ad_name = Some ''Creative A'', impressions = Some 1000,
          clicks = Some 50, spend = Some 25, ctr = Some (Fin 5), cpc = Some (Fin (1 / 2))\<rparr>,
         \<lparr>ad_id = Some ''ad_2'', ad_name = Some ''Creative B'', impressions = Some 2000,
          clicks = Some 40, spend = Some 20, ctr = Some (Fin 2), cpc = Some (Fin (1 / 2))\<rparr>,
         \<lparr>ad_id = Some ''ad_3'', ad_name = Some ''Creative C'', impressions = Some 500,
          clicks = Some 25, spend = Some (25 / 2), ctr = Some (Fin 5), cpc = Some (Fin (1 / 2))\<rparr>],
      round_robin_index = 2\<rparr> =
   (Inr \<lparr>ad_id = Some ''ad_3'', ad_name = Some ''Creative C'', impressions = Some 500,
          clicks = Some 25, spend = Some (25 / 2), ctr = Some (Fin 5), cpc = Some (Fin (1 / 2))\<rparr>,
    \<lparr>creatives =
        [\<lparr>ad_id = Some ''ad_1'', ad_name = Some ''Creative A'', impressions = Some 1000,
          clicks = Some 50, spend = Some 25, ctr = Some (Fin 5), cpc = Some (Fin (1 / 2))\<rparr>,
         \<lparr>ad_id = Some ''ad_2'', ad_name = Some ''Creative B'', impressions = Some 2000,
          clicks = Some 40, spend = Some 20, ctr = Some (Fin 2), cpc = Some (Fin (1 / 2))\<rparr>,
         \<lparr>ad_id = Some ''ad_3'', ad_name = Some ''Creative C'', impressions = Some 500,
          clicks = Some 25, spend = Some (25 / 2), ctr = Some (Fin 5), cpc = Some (Fin (1 / 2))\<rparr>],
      round_robin_index = 0\<rparr>)
   \<and> fst (rotation_loop ''round_robin'' (\<lambda>i. 0) 7 0
     \<lparr>creatives =
        [\<lparr>ad_id = Some ''ad_1'', ad_name = Some ''Creative A'', impressions = Some 1000,
          clicks = Some 50, spend = Some 25, ctr = Some (Fin 5), cpc = Some (Fin (1 / 2))\<rparr>,
         \<lparr>ad_id = Some ''ad_2'', ad_name = Some ''Creative B'', impressions = Some 2000,
          clicks = Some 40, spend = Some 20, ctr = Some (Fin 2), cpc = Some (Fin (1 / 2))\<rparr>,
         \<lparr>ad_id = Some ''ad_3'', ad_name = Some ''Creative C'', impressions = Some 500,
          clicks = Some 25, spend = Some (25 / 2), ctr = Some (Fin 5), cpc = Some (Fin (1 / 2))\<rparr>],
      round_robin_index = 0\<rparr>) =
     Inr [(1, \<lparr>ad_id = Some ''ad_1'', ad_name = Some ''Creative A'', impressions = Some 1000,
          clicks = Some 50, spend = Some 25, ctr = Some (Fin 5), cpc = Some (Fin (1 / 2))\<rparr>),
         (2, \<lparr>ad_id = Some ''ad_2'', ad_name = Some ''Creative B'', impressions = Some 2000,
          clicks = Some 40, spend = Some 20, ctr = Some (Fin 2), cpc = Some (Fin (1 / 2))\<rparr>),
         (3, \<lparr>ad_id = Some ''ad_3'', ad_name = Some ''Creative C'', impressions = Some 500,
          clicks = Some 25, spend = Some (25 / 2), ctr = Some (Fin 5), cpc = Some (Fin (1 / 2))\<rparr>),
         (4, \<lparr>ad_id = Some ''ad_1'', ad_name = Some ''Creative A'', impressions = Some 1000,
          clicks = Some 50, spend = Some 25, ctr = Some (Fin 5), cpc = Some (Fin (1 / 2))\<rparr>),
         (5, \<lparr>ad_id = Some ''ad_2'', ad_name = Some ''Creative B'', impressions = Some 2000,
          clicks = Some 40, spend = Some 20, ctr = Some (Fin 2), cpc = Some (Fin (1 / 2))\<rparr>),
         (6, \<lparr>ad_id = Some ''ad_3'', ad_name = Some ''Creative C'', impressions = Some 500,
          clicks = Some 25, spend = Some (25 / 2), ctr = Some (Fin 5), cpc = Some (Fin (1 / 2))\<rparr>),
         (7, \<lparr>ad_id = Some ''ad_1'', ad_name = Some ''Creative A'', impressions = Some 1000,
          clicks = Some 50, spend = Some 25, ctr = Some (Fin 5), cpc = Some (Fin (1 / 2))\<rparr>)]
   \<and> fst (choose_next ''round_robin'' 0 (reset_round_robin
     \<lparr>creatives =
        [\<lparr>ad_id = Some ''ad_1'', ad_name = Some ''Creative A'', impressions = Some 1000,
          clicks = Some 50, spend = Some 25, ctr = Some (Fin 5), cpc = Some (Fin (1 / 2))\<rparr>,
         \<lparr>ad_id = Some ''ad_2'', ad_name = Some ''Creative B'', impressions = Some 2000,
          clicks = Some 40, spend = Some 20, ctr = Some (Fin 2), cpc = Some (Fin (1 / 2))\<rparr>,
         \<lparr>ad_id = Some ''ad_3'', ad_name = Some ''Creative C'', impressions = Some 500,
          clicks = Some 25, spend = Some (25 / 2), ctr = Some (Fin 5), cpc = Some (Fin (1 / 2))\<rparr>],
      round_robin_index = 2\<rparr>)) =
     Inr \<lparr>ad_id = Some ''ad_1'', ad_name = Some ''Creative A'', impressions = Some 1000,
          clicks = Some 50, spend = Some 25, ctr = Some (Fin 5), cpc = Some (Fin (1 / 2))\<rparr>"
proof -
  have e: "map (\<lambda>k. (k + 1,
        [\<lparr>ad_id = Some ''ad_1'', ad_name = Some ''Creative A'', impressions = Some 1000,
          clicks = Some 50, spend = Some 25, ctr = Some (Fin 5), cpc = Some (Fin (1 / 2))\<rparr>,
         \<lparr>ad_id = Some ''ad_2'', ad_name = Some ''Creative B'', impressions = Some 2000,
          clicks = Some 40, spend = Some 20, ctr = Some (Fin 2), cpc = Some (Fin (1 / 2))\<rparr>,
         \<lparr>ad_id = Some ''ad_3'', ad_name = Some ''Creative C'', impressions = Some 500,
          clicks = Some 25, spend = Some (25 / 2), ctr = Some (Fin 5), cpc = Some (Fin (1 / 2))\<rparr>] ! (k mod 3))) [0..<7] =
     [(1, \<lparr>ad_id = Some ''ad_1'', ad_name = Some ''Creative A'', impressions = Some 1000,
          clicks = Some 50, spend = Some 25, ctr = Some (Fin 5), cpc = Some (Fin (1 / 2))\<rparr>),
         (2, \<lparr>ad_id = Some ''ad_2'', ad_name = Some ''Creative B'', impressions = Some 2000,
          clicks = Some 40, spend = Some 20, ctr = Some (Fin 2), cpc = Some (Fin (1 / 2))\<rparr>),
         (3, \<lparr>ad_id = Some ''ad_3'', ad_name = Some ''Creative C'', impressions = Some 500,
          clicks = Some 25, spend = Some (25 / 2), ctr = Some (Fin 5), cpc = Some (Fin (1 / 2))\<rparr>),
         (4, \<lparr>ad_id = Some ''ad_1'', ad_name = Some ''Creative A'', impressions = Some 1000,
          clicks = Some 50, spend = Some 25, ctr = Some (Fin 5), cpc = Some (Fin (1 / 2))\<rparr>),
         (5, \<lparr>ad_id = Some ''ad_2'', ad_name = Some ''Creative B'', impressions = Some 2000,
          clicks = Some 40, spend = Some 20, ctr = Some (Fin 2), cpc = Some (Fin (1 / 2))\<rparr>),
         (6, \<lparr>ad_id = Some ''ad_3'', ad_name = Some ''Creative C'', impressions = Some 500,
          clicks = Some 25, spend = Some (25 / 2), ctr = Some (Fin 5), cpc = Some (Fin (1 / 2))\<rparr>),
         (7, \<lparr>ad_id = Some ''ad_1'', ad_name = Some ''Creative A'', impressions = Some 1000,
          clicks = Some 50, spend = Some 25, ctr = Some (Fin 5), cpc = Some (Fin (1 / 2))\<rparr>)]"
    by code_simp
  have ok: "cursor_ok
     \<lparr>creatives =
        [\<lparr>ad_id = Some ''ad_1'', ad_name = Some ''Creative A'', impressions = Some 1000,
          clicks = Some 50, spend = Some 25, ctr = Some (Fin 5), cpc = Some (Fin (1 / 2))\<rparr>,
         \<lparr>ad_id = Some ''ad_2'', ad_name = Some ''Creative B'', impressions = Some 2000,
          clicks = Some 40, spend = Some 20, ctr = Some (Fin 2), cpc = Some (Fin (1 / 2))\<rparr>,
         \<lparr>ad_id = Some ''ad_3'', ad_name = Some ''Creative C'', impressions = Some 500,
          clicks = Some 25, spend = Some (25 / 2), ctr = Some (Fin 5), cpc = Some (Fin (1 / 2))\<rparr>],
      round_robin_index = 2\<rparr>"
    by (simp add: cursor_ok_def)
  from ok e round_robin_cycle [of
     "\<lparr>creatives =
        [\<lparr>ad_id = Some ''ad_1'', ad_name = Some ''Creative A'', impressions = Some 1000,
          clicks = Some 50, spend = Some 25, ctr = Some (Fin 5), cpc = Some (Fin (1 / 2))\<rparr>,
         \<lparr>ad_id = Some ''ad_2'', ad_name = Some ''Creative B'', impressions = Some 2000,
          clicks = Some 40, spend = Some 20, ctr = Some (Fin 2), cpc = Some (Fin (1 / 2))\<rparr>,
         \<lparr>ad_id = Some ''ad_3'', ad_name = Some ''Creative C'', impressions = Some 500,
          clicks = Some 25, spend = Some (25 / 2), ctr = Some (Fin 5), cpc = Some (Fin (1 / 2))\<rparr>],
      round_robin_index = 2\<rparr>" 0
     "[\<lparr>ad_id = Some ''ad_1'', ad_name = Some ''Creative A'', impressions = Some 1000,
          clicks = Some 50, spend = Some 25, ctr = Some (Fin 5), cpc = Some (Fin (1 / 2))\<rparr>]" "\<lambda>i. 0" 7
     "\<lparr>ad_id = Some ''ad_1'', ad_name = Some ''Creative A'', impressions = Some 1000,
          clicks = Some 50, spend = Some 25, ctr = Some (Fin 5), cpc = Some (Fin (1 / 2))\<rparr>"
     "\<lparr>ad_id = Some ''ad_2'', ad_name = Some ''Creative B'', impressions = Some 2000,
          clicks = Some 40, spend = Some 20, ctr = Some (Fin 2), cpc = Some (Fin (1 / 2))\<rparr>"
     "\<lparr>ad_id = Some ''ad_3'', ad_name = Some ''Creative C'', impressions = Some 500,
          clicks = Some 25, spend = Some (25 / 2), ctr = Some (Fin 5), cpc = Some (Fin (1 / 2))\<rparr>"]
  show ?thesis by simp
qed

section \<open>Best click-through rate\<close>

lemma max_loop_first_max:
  assumes "\<forall>x\<in>set xs. key x = Inr (f x)"
  shows "\<exists>j<length (best # xs).
           max_loop key best (f best) xs = Inr ((best # xs) ! j) \<and>
           (\<forall>x\<in>set (best # xs). f x \<le> f ((best # xs) ! j)) \<and>
           (\<forall>i<j. f ((best # xs) ! i) < f ((best # xs) ! j))"
  using assms
proof (induction xs arbitrary: best)
  case Nil
  then show ?case by simp
next
  case (Cons x xs)
  from Cons.prems have kx: "key x = Inr (f x)" and rest: "\<forall>y\<in>set xs. key y = Inr (f y)"
    by simp_all
  show ?case
  proof (cases "f best < f x")
    case True
    from Cons.IH [OF rest, of x] obtain j where
      j: "j < length (x # xs)" and
      r: "max_loop key x (f x) xs = Inr ((x # xs) ! j)" and
      mx: "\<forall>y\<in>set (x # xs). f y \<le> f ((x # xs) ! j)" and
      fs: "\<forall>i<j. f ((x # xs) ! i) < f ((x # xs) ! j)"
      by blast
    from mx have xr: "f x \<le> f ((x # xs) ! j)" by simp
    with True have br: "f best < f ((x # xs) ! j)" by simp
    have "Suc j < length (best # x # xs)" using j by simp
    moreover have "max_loop key best (f best) (x # xs) = Inr ((best # x # xs) ! Suc j)"
      using True kx r by simp
    moreover have "\<forall>y\<in>set (best # x # xs). f y \<le> f ((best # x # xs) ! Suc j)"
      using mx br by auto
    moreover have "\<forall>i<Suc j. f ((best # x # xs) ! i) < f ((best # x # xs) ! Suc j)"
    proof (intro allI impI)
      fix i assume "i < Suc j"
      then show "f ((best # x # xs) ! i) < f ((best # x # xs) ! Suc j)"
        using br fs by (cases i) auto
    qed
    ultimately show ?thesis by blast
  next
    case False
    then have xb: "f x \<le> f best" by simp
    from Cons.IH [OF rest, of best] obtain j where
      j: "j < length (best # xs)" and
      r: "max_loop key best (f best) xs = Inr ((best # xs) ! j)" and
      mx: "\<forall>y\<in>set (best # xs). f y \<le> f ((best # xs) ! j)" and
      fs: "\<forall>i<j. f ((best # xs) ! i) < f ((best # xs) ! j)"
      by blast
    from mx have bj: "f best \<le> f ((best # xs) ! j)" by simp
    with xb have xj: "f x \<le> f ((best # xs) ! j)" by simp
    show ?thesis
    proof (cases j)
      case 0
      have "0 < length (best # x # xs)" by simp
      moreover have "max_loop key best (f best) (x # xs) = Inr ((best # x # xs) ! 0)"
        using False kx r 0 by simp
      moreover have "\<forall>y\<in>set (best # x # xs). f y \<le> f ((best # x # xs) ! 0)"
        using mx xj 0 by auto
      ultimately show ?thesis by blast
    next
      case (Suc j')
      from fs Suc have b0: "f best < f (xs ! j')" by auto
      with xb have x0: "f x < f (xs ! j')" by simp
      have "Suc (Suc j') < length (best # x # xs)" using j Suc by simp
      moreover have "max_loop key best (f best) (x # xs) = Inr ((best # x # xs) ! Suc (Suc j'))"
        using False kx r Suc by simp
      moreover have "\<forall>y\<in>set (best # x # xs). f y \<le> f ((best # x # xs) ! Suc (Suc j'))"
        using mx xj Suc by auto
      moreover have "\<forall>i<Suc (Suc j'). f ((best # x # xs) ! i) < f ((best # x # xs) ! Suc (Suc j'))"
      proof (intro allI impI)
        fix i assume il: "i < Suc (Suc j')"
        show "f ((best # x # xs) ! i) < f ((best # x # xs) ! Suc (Suc j'))"
        proof (cases i)
          case 0
          with b0 show ?thesis by simp
        next
          case (Suc i')
          show ?thesis
          proof (cases i')
            case 0
            with Suc x0 show ?thesis by simp
          next
            case (Suc i'')
            with \<open>i = Suc i'\<close> il have "Suc i'' < j" using \<open>j = Suc j'\<close> by simp
            with fs have "f ((best # xs) ! Suc i'') < f ((best # xs) ! j)" by blast
            with Suc \<open>i = Suc i'\<close> \<open>j = Suc j'\<close> show ?thesis by simp
          qed
        qed
      qed
      ultimately show ?thesis by blast
    qed
  qed
qed

lemma py_max_first_max:
  assumes "\<forall>x\<in>set xs. key x = Inr (f x)" and "xs \<noteq> []"
  shows "\<exists>j<length xs.
           py_max key xs = Inr (xs ! j) \<and>
           (\<forall>x\<in>set xs. f x \<le> f (xs ! j)) \<and>
           (\<forall>i<j. f (xs ! i) < f (xs ! j))"
proof -
  from assms(2) obtain b rest where xs: "xs = b # rest" by (cases xs) auto
  with assms(1) have kb: "key b = Inr (f b)" and kr: "\<forall>x\<in>set rest. key x = Inr (f x)"
    by simp_all
  have "py_max key xs = max_loop key b (f b) rest"
    by (simp add: py_max_def xs kb)
  with max_loop_first_max [OF kr, of b] show ?thesis
    unfolding xs by simp
qed

lemma strategy_best_ctr: "RotationStrategy_of ''best_ctr'' = Inr BEST_CTR"
  by (simp add: RotationStrategy_of_def)

lemma complete_impressions_test:
  "complete c \<Longrightarrow>
   and_then (getitem ''impressions'' (impressions c)) (\<lambda>i. Inr (i > 0)) =
     Inr (0 < the (impressions c))"
  by (auto simp: complete_def missing_field_None getitem_def and_then_simps)

lemma complete_ctr_key: "complete c \<Longrightarrow> getitem ''ctr'' (ctr c) = Inr (the (ctr c))"
  by (auto simp: complete_def getitem_def)

lemma best_ctr_choice_valid:
  assumes "\<forall>c\<in>set (creatives st). complete c"
  shows "best_ctr_choice rnd st =
     (if filter (\<lambda>c. 0 < the (impressions c)) (creatives st) = []
      then random_choice rnd (creatives st)
      else py_max (\<lambda>x. getitem ''ctr'' (ctr x))
             (filter (\<lambda>c. 0 < the (impressions c)) (creatives st)))"
proof -
  have "filter_result (\<lambda>c. and_then (getitem ''impressions'' (impressions c)) (\<lambda>i. Inr (i > 0)))
          (creatives st) = Inr (filter (\<lambda>c. 0 < the (impressions c)) (creatives st))"
    using assms by (intro filter_result_total) (simp add: complete_impressions_test)
  then show ?thesis by (simp add: best_ctr_choice_def and_then_simps)
qed

text \<open>
  C9: in a state with a non-empty collection of complete creatives, \<open>choose_next\<close>
  with \<open>best_ctr\<close> leaves the state as it is and, when some creative has positive
  impressions, returns among those creatives (in collection order) one of maximum
  \<open>ctr\<close> before which every one has a strictly smaller \<open>ctr\<close>: the first of
  maximum \<open>ctr\<close>. When no creative has positive impressions it returns the creative
  of the full collection that the random draw selects, and raises nothing.
\<close>

theorem best_ctr_first_maximum:
  "(creatives st \<noteq> [] \<and> (\<forall>c\<in>set (creatives st). complete c) \<and>
    filter (\<lambda>c. 0 < the (impressions c)) (creatives st) \<noteq> [] \<longrightarrow>
      (\<exists>j<length (filter (\<lambda>c. 0 < the (impressions c)) (creatives st)).
         choose_next ''best_ctr'' rnd st =
           (Inr (filter (\<lambda>c. 0 < the (impressions c)) (creatives st) ! j), st) \<and>
         (\<forall>c\<in>set (filter (\<lambda>c. 0 < the (impressions c)) (creatives st)).
            the (ctr c) \<le> the (ctr (filter (\<lambda>c. 0 < the (impressions c)) (creatives st) ! j))) \<and>
         (\<forall>i<j. the (ctr (filter (\<lambda>c. 0 < the (impressions c)) (creatives st) ! i))
                 < the (ctr (filter (\<lambda>c. 0 < the (impressions c)) (creatives st) ! j)))))
   \<and> (creatives st \<noteq> [] \<and> (\<forall>c\<in>set (creatives st). complete c) \<and>
      filter (\<lambda>c. 0 < the (impressions c)) (creatives st) = [] \<longrightarrow>
        choose_next ''best_ctr'' rnd st =
          (Inr (creatives st ! (rnd mod length (creatives st))), st) \<and>
        creatives st ! (rnd mod length (creatives st)) \<in> set (creatives st))"
proof (intro conjI impI)
  assume a: "creatives st \<noteq> [] \<and> (\<forall>c\<in>set (creatives st). complete c) \<and>
    filter (\<lambda>c. 0 < the (impressions c)) (creatives st) \<noteq> []"
  define valid where "valid = filter (\<lambda>c. 0 < the (impressions c)) (creatives st)"
  from a have ne: "valid \<noteq> []" and cm: "\<forall>c\<in>set (creatives st). complete c"
    by (simp_all add: valid_def)
  from cm have k: "\<forall>x\<in>set valid. getitem ''ctr'' (ctr x) = Inr (the (ctr x))"
    by (simp add: valid_def complete_ctr_key)
  have ch: "choose_next ''best_ctr'' rnd st = (py_max (\<lambda>x. getitem ''ctr'' (ctr x)) valid, st)"
    using a ne by (simp add: choose_next_def strategy_best_ctr best_ctr_choice_valid [OF cm]
        valid_def)
  from py_max_first_max [OF k ne] obtain j where
    "j < length valid" "py_max (\<lambda>x. getitem ''ctr'' (ctr x)) valid = Inr (valid ! j)"
    "\<forall>x\<in>set valid. the (ctr x) \<le> the (ctr (valid ! j))"
    "\<forall>i<j. the (ctr (valid ! i)) < the (ctr (valid ! j))"
    by blast
  with ch have "\<exists>j<length valid.
         choose_next ''best_ctr'' rnd st = (Inr (valid ! j), st) \<and>
         (\<forall>c\<in>set valid. the (ctr c) \<le> the (ctr (valid ! j))) \<and>
         (\<forall>i<j. the (ctr (valid ! i)) < the (ctr (valid ! j)))"
    by auto
  then show "\<exists>j<length (filter (\<lambda>c. 0 < the (impressions c)) (creatives st)).
         choose_next ''best_ctr'' rnd st =
           (Inr (filter (\<lambda>c. 0 < the (impressions c)) (creatives st) ! j), st) \<and>
         (\<forall>c\<in>set (filter (\<lambda>c. 0 < the (impressions c)) (creatives st)).
            the (ctr c) \<le> the (ctr (filter (\<lambda>c. 0 < the (impressions c)) (creatives st) ! j))) \<and>
         (\<forall>i<j. the (ctr (filter (\<lambda>c. 0 < the (impressions c)) (creatives st) ! i))
                 < the (ctr (filter (\<lambda>c. 0 < the (impressions c)) (creatives st) ! j)))"
    unfolding valid_def .
next
  assume a: "creatives st \<noteq> [] \<and> (\<forall>c\<in>set (creatives st). complete c) \<and>
      filter (\<lambda>c. 0 < the (impressions c)) (creatives st) = []"
  then have cm: "\<forall>c\<in>set (creatives st). complete c" by simp
  from a show "choose_next ''best_ctr'' rnd st =
      (Inr (creatives st ! (rnd mod length (creatives st))), st)"
    by (simp add: choose_next_def strategy_best_ctr best_ctr_choice_valid [OF cm]
        random_choice_def)
  from a have "rnd mod length (creatives st) < length (creatives st)" by simp
  then show "creatives st ! (rnd mod length (creatives st)) \<in> set (creatives st)"
    by (rule nth_mem)
qed

theorem best_ctr_first_maximum_witness:
  "complete
     \<lparr>ad_id = Some ''ad_1'', ad_name = Some ''Creative A'', impressions = Some 1000,
          clicks = Some 50, spend = Some 25, ctr = Some (Fin 5), cpc = Some (Fin (1 / 2))\<rparr>
   \<and> complete
     \<lparr>ad_id = Some ''ad_2'', ad_name = Some ''Creative B'', impressions = Some 2000,
          clicks = Some 40, spend = Some 20, ctr = Some (Fin 2), cpc = Some (Fin (1 / 2))\<rparr>
   \<and> complete
     \<lparr>ad_id = Some ''ad_3'', ad_name = Some ''Creative C'', impressions = Some 500,
          clicks = Some 25, spend = Some (25 / 2), ctr = Some (Fin 5), cpc = Some (Fin (1 / 2))\<rparr>
   \<and> choose_next ''best_ctr'' 0
     \<lparr>creatives =
        [\<lparr>ad_id = Some ''ad_1'', ad_name = Some ''Creative A'', impressions = Some 1000,
          clicks = Some 50, spend = Some 25, ctr = Some (Fin 5), cpc = Some (Fin (1 / 2))\<rparr>,
         \<lparr>ad_id = Some ''ad_2'', ad_name = Some ''Creative B'', impressions = Some 2000,
          clicks = Some 40, spend = Some 20, ctr = Some (Fin 2), cpc = Some (Fin (1 / 2))\<rparr>,
         \<lparr>ad_id = Some ''ad_3'', ad_name = Some ''Creative C'', impressions = Some 500,
          clicks = Some 25, spend = Some (25 / 2), ctr = Some (Fin 5), cpc = Some (Fin (1 / 2))\<rparr>],
      round_robin_index = 1\<rparr> =
     (Inr \<lparr>ad_id = Some ''ad_1'', ad_name = Some ''Creative A'', impressions = Some 1000,
          clicks = Some 50, spend = Some 25, ctr = Some (Fin 5), cpc = Some (Fin (1 / 2))\<rparr>,
      \<lparr>creatives =
        [\<lparr>ad_id = Some ''ad_1'', ad_name = Some ''Creative A'', impressions = Some 1000,
          clicks = Some 50, spend = Some 25, ctr = Some (Fin 5), cpc = Some (Fin (1 / 2))\<rparr>,
         \<lparr>ad_id = Some ''ad_2'', ad_name = Some ''Creative B'', impressions = Some 2000,
          clicks = Some 40, spend = Some 20, ctr = Some (Fin 2), cpc = Some (Fin (1 / 2))\<rparr>,
         \<lparr>ad_id = Some ''ad_3'', ad_name = Some ''Creative C'', impressions = Some 500,
          clicks = Some 25, spend = Some (25 / 2), ctr = Some (Fin 5), cpc = Some (Fin (1 / 2))\<rparr>],
      round_robin_index = 1\<rparr>)
   \<and> choose_next ''best_ctr'' 1
     \<lparr>creatives =
        [\<lparr>ad_id = Some ''ad_5'', ad_name = Some ''Creative Y'', impressions = Some 0,
          clicks = Some 0, spend = Some 0, ctr = Some (Fin 0), cpc = Some (PInf)\<rparr>,
         \<lparr>ad_id = Some ''ad_6'', ad_name = Some ''Creative Z'', impressions = Some 0,
          clicks = Some 0, spend = Some 1, ctr = Some (Fin 0), cpc = Some (PInf)\<rparr>],
      round_robin_index = 0\<rparr> =
     (Inr \<lparr>ad_id = Some ''ad_6'', ad_name = Some ''Creative Z'', impressions = Some 0,
          clicks = Some 0, spend = Some 1, ctr = Some (Fin 0), cpc = Some (PInf)\<rparr>,
      \<lparr>creatives =
        [\<lparr>ad_id = Some ''ad_5'', ad_name = Some ''Creative Y'', impressions = Some 0,
          clicks = Some 0, spend = Some 0, ctr = Some (Fin 0), cpc = Some (PInf)\<rparr>,
         \<lparr>ad_id = Some ''ad_6'', ad_name = Some ''Creative Z'', impressions = Some 0,
          clicks = Some 0, spend = Some 1, ctr = Some (Fin 0), cpc = Some (PInf)\<rparr>],
      round_robin_index = 0\<rparr>)"
proof -
  have e: "choose_next ''best_ctr'' 0
     \<lparr>creatives =
        [\<lparr>ad_id = Some ''ad_1'', ad_name = Some ''Creative A'', impressions = Some 1000,
          clicks = Some 50, spend = Some 25, ctr = Some (Fin 5), cpc = Some (Fin (1 / 2))\<rparr>,
         \<lparr>ad_id = Some ''ad_2'', ad_name = Some ''Creative B'', impressions = Some 2000,
          clicks = Some 40, spend = Some 20, ctr = Some (Fin 2), cpc = Some (Fin (1 / 2))\<rparr>,
         \<lparr>ad_id = Some ''ad_3'', ad_name = Some ''Creative C'', impressions = Some 500,
          clicks = Some 25, spend = Some (25 / 2), ctr = Some (Fin 5), cpc = Some (Fin (1 / 2))\<rparr>],
      round_robin_index = 1\<rparr> =
     (Inr \<lparr>ad_id = Some ''ad_1'', ad_name = Some ''Creative A'', impressions = Some 1000,
          clicks = Some 50, spend = Some 25, ctr = Some (Fin 5), cpc = Some (Fin (1 / 2))\<rparr>,
      \<lparr>creatives =
        [\<lparr>ad_id = Some ''ad_1'', ad_name = Some ''Creative A'', impressions = Some 1000,
          clicks = Some 50, spend = Some 25, ctr = Some (Fin 5), cpc = Some (Fin (1 / 2))\<rparr>,
         \<lparr>ad_id = Some ''ad_2'', ad_name = Some ''Creative B'', impressions = Some 2000,
          clicks = Some 40, spend = Some 20, ctr = Some (Fin 2), cpc = Some (Fin (1 / 2))\<rparr>,
         \<lparr>ad_id = Some ''ad_3'', ad_name = Some ''Creative C'', impressions = Some 500,
          clicks = Some 25, spend = Some (25 / 2), ctr = Some (Fin 5), cpc = Some (Fin (1 / 2))\<rparr>],
      round_robin_index = 1\<rparr>)"
    by code_simp
  have f: "choose_next ''best_ctr'' 1
     \<lparr>creatives =
        [\<lparr>ad_id = Some ''ad_5'', ad_name = Some ''Creative Y'', impressions = Some 0,
          clicks = Some 0, spend = Some 0, ctr = Some (Fin 0), cpc = Some (PInf)\<rparr>,
         \<lparr>ad_id = Some ''ad_6'', ad_name = Some ''Creative Z'', impressions = Some 0,
          clicks = Some 0, spend = Some 1, ctr = Some (Fin 0), cpc = Some (PInf)\<rparr>],
      round_robin_index = 0\<rparr> =
     (Inr \<lparr>ad_id = Some ''ad_6'', ad_name = Some ''Creative Z'', impressions = Some 0,
          clicks = Some 0, spend = Some 1, ctr = Some (Fin 0), cpc = Some (PInf)\<rparr>,
      \<lparr>creatives =
        [\<lparr>ad_id = Some ''ad_5'', ad_name = Some ''Creative Y'', impressions = Some 0,
          clicks = Some 0, spend = Some 0, ctr = Some (Fin 0), cpc = Some (PInf)\<rparr>,
         \<lparr>ad_id = Some ''ad_6'', ad_name = Some ''Creative Z'', impressions = Some 0,
          clicks = Some 0, spend = Some 1, ctr = Some (Fin 0), cpc = Some (PInf)\<rparr>],
      round_robin_index = 0\<rparr>)"
    using best_ctr_first_maximum [of
     "\<lparr>creatives =
        [\<lparr>ad_id = Some ''ad_5'', ad_name = Some ''Creative Y'', impressions = Some 0,
          clicks = Some 0, spend = Some 0, ctr = Some (Fin 0), cpc = Some (PInf)\<rparr>,
         \<lparr>ad_id = Some ''ad_6'', ad_name = Some ''Creative Z'', impressions = Some 0,
          clicks = Some 0, spend = Some 1, ctr = Some (Fin 0), cpc = Some (PInf)\<rparr>],
      round_robin_index = 0\<rparr>" 1]
    by (simp add: complete_def missing_field_def)
  show ?thesis
    by (intro conjI e f) (simp_all add: complete_def missing_field_def)
qed

section \<open>Aggregation\<close>

lemma collect_concat:
  "collect sd ed cls acc =
     acc @ concat (map (\<lambda>cl. projr (fetch_client_data cl sd ed))
                    (filter (\<lambda>cl. \<not> isl (fetch_client_data cl sd ed)) cls))"
proof (induction cls arbitrary: acc)
  case Nil
  then show ?case by simp
next
  case (Cons cl cls)
  show ?case
    by (cases "fetch_client_data cl sd ed") (simp_all add: Cons.IH)
qed

lemma fetch_campaigns_fails:
  "isl (fetch_campaigns cl sd ed) \<Longrightarrow> isl (fetch_client_data cl sd ed)"
  by (cases "fetch_campaigns cl sd ed") (simp_all add: fetch_client_data_def and_then_simps)

lemma contributions_permuted:
  assumes "mset ys = mset xs"
  shows "mset (concat (map f (filter P ys))) = mset (concat (map f (filter P xs)))"
proof -
  have "mset (concat (map f (filter P zs))) =
          (\<Sum>z\<in>#filter_mset P (mset zs). mset (f z))" for zs :: "'a list"
    by (induction zs) simp_all
  with assms show ?thesis by simp
qed

lemma traverse_total:
  "\<forall>x\<in>set xs. f x = Inr (g x) \<Longrightarrow> traverse f xs = Inr (map g xs)"
  by (induction xs) auto

lemma fetch_campaign_entry_ok:
  assumes "campaign_id c \<noteq> None" "name c \<noteq> None" "campaign_impressions c \<noteq> None"
    "campaign_clicks c \<noteq> None" "campaign_spend c \<noteq> None"
  shows "fetch_campaign_entry cl sd ed c =
     Inr \<lparr>platform = platform_name cl,
          record_campaign_id = the (campaign_id c),
          record_name = the (name c),
          record_impressions = the (campaign_impressions c),
          record_clicks = the (campaign_clicks c),
          record_spend = the (campaign_spend c),
          ads = (case fetch_ads cl (the (campaign_id c)) sd ed of
                   Inl e \<Rightarrow> [] | Inr a \<Rightarrow> a)\<rparr>"
  using assms
  by (cases "fetch_ads cl (the (campaign_id c)) sd ed")
     (auto simp: fetch_campaign_entry_def formatted_campaign_def getitem_def and_then_simps)

lemma fetch_client_data_ok:
  assumes "fetch_campaigns cl sd ed = Inr camps"
    and "\<forall>c\<in>set camps. campaign_id c \<noteq> None \<and> name c \<noteq> None \<and>
           campaign_impressions c \<noteq> None \<and> campaign_clicks c \<noteq> None \<and>
           campaign_spend c \<noteq> None"
  shows "fetch_client_data cl sd ed =
     Inr (map (\<lambda>c. \<lparr>platform = platform_name cl,
                    record_campaign_id = the (campaign_id c),
                    record_name = the (name c),
                    record_impressions = the (campaign_impressions c),
                    record_clicks = the (campaign_clicks c),
                    record_spend = the (campaign_spend c),
                    ads = (case fetch_ads cl (the (campaign_id c)) sd ed of
                             Inl e \<Rightarrow> [] | Inr a \<Rightarrow> a)\<rparr>) camps)"
proof -
  have "traverse (fetch_campaign_entry cl sd ed) camps =
     Inr (map (\<lambda>c. \<lparr>platform = platform_name cl,
                    record_campaign_id = the (campaign_id c),
                    record_name = the (name c),
                    record_impressions = the (campaign_impressions c),
                    record_clicks = the (campaign_clicks c),
                    record_spend = the (campaign_spend c),
                    ads = (case fetch_ads cl (the (campaign_id c)) sd ed of
                             Inl e \<Rightarrow> [] | Inr a \<Rightarrow> a)\<rparr>) camps)"
    using assms(2) by (intro traverse_total) (simp add: fetch_campaign_entry_ok)
  with assms(1) show ?thesis by (simp add: fetch_client_data_def and_then_simps)
qed

lemma guarded_fetch_invalid:
  "ed < sd \<or> today < sd \<Longrightarrow> isl (guarded_fetch today passed body sd ed)"
  by (auto simp: guarded_fetch_def validate_date_range_def and_then_simps)

text \<open>
  C5: aggregation returns the contributions of the clients whose
  \<open>_fetch_client_data\<close> returned, one after the other, in the order of the clients
  (sequential branch) or in the order of completion (parallel branch, where the result
  is a permutation of the sequential one); a client whose \<open>fetch_campaigns\<close> raises
  is among the omitted ones; no failure of a client makes the aggregation raise, and
  when every client fails the result is the empty list.
\<close>

theorem failing_clients_omitted:
  "aggregate_data clients sd ed parallel completed =
     Inr (concat (map (\<lambda>cl. projr (fetch_client_data cl sd ed))
            (filter (\<lambda>cl. \<not> isl (fetch_client_data cl sd ed))
               (if parallel \<and> 1 < length clients then completed else clients))))
   \<and> (isl (fetch_campaigns cl sd ed) \<longrightarrow> isl (fetch_client_data cl sd ed))
   \<and> (mset completed = mset clients \<longrightarrow>
        (\<exists>r. aggregate_data clients sd ed parallel completed = Inr r \<and>
           mset r =
             mset (concat (map (\<lambda>cl. projr (fetch_client_data cl sd ed))
                    (filter (\<lambda>cl. \<not> isl (fetch_client_data cl sd ed)) clients)))))
   \<and> (mset completed = mset clients \<and> (\<forall>cl\<in>set clients. isl (fetch_campaigns cl sd ed)) \<longrightarrow>
        aggregate_data clients sd ed parallel completed = Inr [])"
proof (intro conjI impI)
  show eq: "aggregate_data clients sd ed parallel completed =
     Inr (concat (map (\<lambda>cl. projr (fetch_client_data cl sd ed))
            (filter (\<lambda>cl. \<not> isl (fetch_client_data cl sd ed))
               (if parallel \<and> 1 < length clients then completed else clients))))"
    by (simp add: aggregate_data_def collect_concat)
  show "isl (fetch_client_data cl sd ed)" if "isl (fetch_campaigns cl sd ed)"
    using that by (rule fetch_campaigns_fails)
  show "\<exists>r. aggregate_data clients sd ed parallel completed = Inr r \<and>
           mset r =
             mset (concat (map (\<lambda>cl. projr (fetch_client_data cl sd ed))
                    (filter (\<lambda>cl. \<not> isl (fetch_client_data cl sd ed)) clients)))"
    if "mset completed = mset clients"
    using contributions_permuted [OF that,
        of "\<lambda>cl. projr (fetch_client_data cl sd ed)" "\<lambda>cl. \<not> isl (fetch_client_data cl sd ed)"]
    by (simp add: eq)
  show "aggregate_data clients sd ed parallel completed = Inr []"
    if h: "mset completed = mset clients \<and> (\<forall>cl\<in>set clients. isl (fetch_campaigns cl sd ed))"
  proof -
    from h have "set completed = set clients" by (metis set_mset_mset)
    with h have "\<forall>cl\<in>set (if parallel \<and> 1 < length clients then completed else clients).
        isl (fetch_client_data cl sd ed)"
      by (simp add: fetch_campaigns_fails)
    then have "filter (\<lambda>cl. \<not> isl (fetch_client_data cl sd ed))
        (if parallel \<and> 1 < length clients then completed else clients) = []"
      by (simp only: filter_empty_conv) blast
    then show ?thesis by (simp only: eq) simp
  qed
qed

lemma mock_failing:
  "fetch_campaigns (MockAdsClient pn True) sd ed = Inl AdsAPIError"
  by (simp add: MockAdsClient_def)

lemma mock_working:
  "fetch_client_data (MockAdsClient pn False) sd ed =
     Inr [\<lparr>platform = pn, record_campaign_id = pn @ ''_camp_1'',
           record_name = pn @ '' Campaign 1'', record_impressions = 1000,
           record_clicks = 50, record_spend = 25,
           ads = [\<lparr>ad_id = Some (pn @ ''_camp_1'' @ ''_ad_1''), ad_name = Some ''Test Ad 1'',
                   impressions = Some 500, clicks = Some 25, spend = Some (25 / 2),
                   ctr = Some (Fin 5), cpc = Some (Fin (1 / 2))\<rparr>,
                  \<lparr>ad_id = Some (pn @ ''_camp_1'' @ ''_ad_2''), ad_name = Some ''Test Ad 2'',
                   impressions = Some 500, clicks = Some 25, spend = Some (25 / 2),
                   ctr = Some (Fin 5), cpc = Some (Fin (1 / 2))\<rparr>]\<rparr>]"
  by (simp add: MockAdsClient_def fetch_client_data_def fetch_campaign_entry_def
      formatted_campaign_def getitem_def and_then_simps)

theorem failing_clients_omitted_witness:
  "aggregate_data [MockAdsClient ''failing'' True, MockAdsClient ''working'' False]
     738521 738551 False [] =
     Inr [\<lparr>platform = ''working'', record_campaign_id = ''working_camp_1'',
           record_name = ''working Campaign 1'', record_impressions = 1000,
           record_clicks = 50, record_spend = 25,
           ads = [\<lparr>ad_id = Some ''working_camp_1_ad_1'', ad_name = Some ''Test Ad 1'',
                   impressions = Some 500, clicks = Some 25, spend = Some (25 / 2),
                   ctr = Some (Fin 5), cpc = Some (Fin (1 / 2))\<rparr>,
                  \<lparr>ad_id = Some ''working_camp_1_ad_2'', ad_name = Some ''Test Ad 2'',
                   impressions = Some 500, clicks = Some 25, spend = Some (25 / 2),
                   ctr = Some (Fin 5), cpc = Some (Fin (1 / 2))\<rparr>]\<rparr>]
   \<and> mset [MockAdsClient ''b'' True, MockAdsClient ''a'' True] =
       mset [MockAdsClient ''a'' True, MockAdsClient ''b'' True]
   \<and> isl (fetch_campaigns (MockAdsClient ''a'' True) 738521 738551)
   \<and> isl (fetch_campaigns (MockAdsClient ''b'' True) 738521 738551)
   \<and> aggregate_data [MockAdsClient ''a'' True, MockAdsClient ''b'' True]
       738521 738551 True [MockAdsClient ''b'' True, MockAdsClient ''a'' True] = Inr []"
proof -
  have f: "isl (fetch_client_data (MockAdsClient ''failing'' True) 738521 738551)"
    by (rule fetch_campaigns_fails) (simp add: mock_failing)
  have a: "aggregate_data [MockAdsClient ''failing'' True, MockAdsClient ''working'' False]
     738521 738551 False [] =
     Inr [\<lparr>platform = ''working'', record_campaign_id = ''working_camp_1'',
           record_name = ''working Campaign 1'', record_impressions = 1000,
           record_clicks = 50, record_spend = 25,
           ads = [\<lparr>ad_id = Some ''working_camp_1_ad_1'', ad_name = Some ''Test Ad 1'',
                   impressions = Some 500, clicks = Some 25, spend = Some (25 / 2),
                   ctr = Some (Fin 5), cpc = Some (Fin (1 / 2))\<rparr>,
                  \<lparr>ad_id = Some ''working_camp_1_ad_2'', ad_name = Some ''Test Ad 2'',
                   impressions = Some 500, clicks = Some 25, spend = Some (25 / 2),
                   ctr = Some (Fin 5), cpc = Some (Fin (1 / 2))\<rparr>]\<rparr>]"
    using failing_clients_omitted [of
        "[MockAdsClient ''failing'' True, MockAdsClient ''working'' False]"
        738521 738551 False "[]"] f
    by (simp add: mock_working)
  have m: "mset [MockAdsClient ''b'' True, MockAdsClient ''a'' True] =
       mset [MockAdsClient ''a'' True, MockAdsClient ''b'' True]"
    by (simp add: add_mset_commute)
  have ia: "isl (fetch_campaigns (MockAdsClient ''a'' True) 738521 738551)"
    and ib: "isl (fetch_campaigns (MockAdsClient ''b'' True) 738521 738551)"
    by (simp_all add: mock_failing)
  have e: "aggregate_data [MockAdsClient ''a'' True, MockAdsClient ''b'' True]
       738521 738551 True [MockAdsClient ''b'' True, MockAdsClient ''a'' True] = Inr []"
    using failing_clients_omitted [of
        "[MockAdsClient ''a'' True, MockAdsClient ''b'' True]"
        738521 738551 True "[MockAdsClient ''b'' True, MockAdsClient ''a'' True]"] m ia ib
    by simp
  from a m ia ib e show ?thesis by (intro conjI)
qed

text \<open>
  C6: when \<open>fetch_campaigns\<close> returns campaigns that have their five keys, the data
  of the client has one record per campaign, in order, built from that campaign alone;
  its \<open>ads\<close> are what \<open>fetch_ads\<close> returned for the campaign, or the empty list when
  \<open>fetch_ads\<close> raised. So a campaign whose \<open>fetch_ads\<close> fails still appears, with
  no ads, and the records of the other campaigns are what they are without the
  failure. The aggregation over the client returns these records.
\<close>

theorem failing_ads_keep_campaign:
  "fetch_campaigns cl sd ed = Inr camps \<and>
   (\<forall>c\<in>set camps. campaign_id c \<noteq> None \<and> name c \<noteq> None \<and>
      campaign_impressions c \<noteq> None \<and> campaign_clicks c \<noteq> None \<and>
      campaign_spend c \<noteq> None) \<longrightarrow>
   fetch_client_data cl sd ed =
     Inr (map (\<lambda>c. \<lparr>platform = platform_name cl,
                    record_campaign_id = the (campaign_id c),
                    record_name = the (name c),
                    record_impressions = the (campaign_impressions c),
                    record_clicks = the (campaign_clicks c),
                    record_spend = the (campaign_spend c),
                    ads = (case fetch_ads cl (the (campaign_id c)) sd ed of
                             Inl e \<Rightarrow> [] | Inr a \<Rightarrow> a)\<rparr>) camps)
   \<and> aggregate_data [cl] sd ed parallel completed = fetch_client_data cl sd ed
   \<and> (\<forall>i<length camps.
        isl (fetch_ads cl (the (campaign_id (camps ! i))) sd ed) \<longrightarrow>
        record_campaign_id (projr (fetch_client_data cl sd ed) ! i) = the (campaign_id (camps ! i)) \<and>
        ads (projr (fetch_client_data cl sd ed) ! i) = [])"
proof (intro impI)
  assume h: "fetch_campaigns cl sd ed = Inr camps \<and>
   (\<forall>c\<in>set camps. campaign_id c \<noteq> None \<and> name c \<noteq> None \<and>
      campaign_impressions c \<noteq> None \<and> campaign_clicks c \<noteq> None \<and>
      campaign_spend c \<noteq> None)"
  then have fc: "fetch_campaigns cl sd ed = Inr camps" by simp
  from h have wf: "\<forall>c\<in>set camps. campaign_id c \<noteq> None \<and> name c \<noteq> None \<and>
      campaign_impressions c \<noteq> None \<and> campaign_clicks c \<noteq> None \<and>
      campaign_spend c \<noteq> None" by simp
  note d = fetch_client_data_ok [OF fc wf]
  have a: "aggregate_data [cl] sd ed parallel completed = fetch_client_data cl sd ed"
    by (simp add: aggregate_data_def d)
  have i: "\<forall>i<length camps.
        isl (fetch_ads cl (the (campaign_id (camps ! i))) sd ed) \<longrightarrow>
        record_campaign_id (projr (fetch_client_data cl sd ed) ! i) = the (campaign_id (camps ! i)) \<and>
        ads (projr (fetch_client_data cl sd ed) ! i) = []"
    by (auto simp: d split: sum.splits)
  from d a i show "fetch_client_data cl sd ed =
     Inr (map (\<lambda>c. \<lparr>platform = platform_name cl,
                    record_campaign_id = the (campaign_id c),
                    record_name = the (name c),
                    record_impressions = the (campaign_impressions c),
                    record_clicks = the (campaign_clicks c),
                    record_spend = the (campaign_spend c),
                    ads = (case fetch_ads cl (the (campaign_id c)) sd ed of
                             Inl e \<Rightarrow> [] | Inr a \<Rightarrow> a)\<rparr>) camps)
   \<and> aggregate_data [cl] sd ed parallel completed = fetch_client_data cl sd ed
   \<and> (\<forall>i<length camps.
        isl (fetch_ads cl (the (campaign_id (camps ! i))) sd ed) \<longrightarrow>
        record_campaign_id (projr (fetch_client_data cl sd ed) ! i) = the (campaign_id (camps ! i)) \<and>
        ads (projr (fetch_client_data cl sd ed) ! i) = [])"
    by (intro conjI)
qed

theorem failing_ads_keep_campaign_witness:
  "fetch_campaigns
     \<lparr>platform_name = ''p'',
      fetch_campaigns = (\<lambda>sd ed.
        Inr [\<lparr>campaign_id = Some ''c1'', name = Some ''One'', campaign_impressions = Some 10,
               campaign_clicks = Some 1, campaign_spend = Some 2\<rparr>,
             \<lparr>campaign_id = Some ''c2'', name = Some ''Two'', campaign_impressions = Some 20,
               campaign_clicks = Some 2, campaign_spend = Some 3\<rparr>]),
      fetch_ads = (\<lambda>cid sd ed.
        if cid = ''c1'' then Inl AuthenticationError
        else Inr [\<lparr>ad_id = Some ''a'', ad_name = Some ''Ad'', impressions = Some 5,
                   clicks = Some 1, spend = Some 1, ctr = Some (Fin 20),
                   cpc = Some (Fin 1)\<rparr>])\<rparr> 738521 738551 =
     Inr [\<lparr>campaign_id = Some ''c1'', name = Some ''One'', campaign_impressions = Some 10,
               campaign_clicks = Some 1, campaign_spend = Some 2\<rparr>,
             \<lparr>campaign_id = Some ''c2'', name = Some ''Two'', campaign_impressions = Some 20,
               campaign_clicks = Some 2, campaign_spend = Some 3\<rparr>]
   \<and> fetch_client_data
     \<lparr>platform_name = ''p'',
      fetch_campaigns = (\<lambda>sd ed.
        Inr [\<lparr>campaign_id = Some ''c1'', name = Some ''One'', campaign_impressions = Some 10,
               campaign_clicks = Some 1, campaign_spend = Some 2\<rparr>,
             \<lparr>campaign_id = Some ''c2'', name = Some ''Two'', campaign_impressions = Some 20,
               campaign_clicks = Some 2, campaign_spend = Some 3\<rparr>]),
      fetch_ads = (\<lambda>cid sd ed.
        if cid = ''c1'' then Inl AuthenticationError
        else Inr [\<lparr>ad_id = Some ''a'', ad_name = Some ''Ad'', impressions = Some 5,
                   clicks = Some 1, spend = Some 1, ctr = Some (Fin 20),
                   cpc = Some (Fin 1)\<rparr>])\<rparr> 738521 738551 =
     Inr [\<lparr>platform = ''p'', record_campaign_id = ''c1'', record_name = ''One'',
           record_impressions = 10, record_clicks = 1, record_spend = 2, ads = []\<rparr>,
          \<lparr>platform = ''p'', record_campaign_id = ''c2'', record_name = ''Two'',
           record_impressions = 20, record_clicks = 2, record_spend = 3,
           ads = [\<lparr>ad_id = Some ''a'', ad_name = Some ''Ad'', impressions = Some 5,
                   clicks = Some 1, spend = Some 1, ctr = Some (Fin 20),
                   cpc = Some (Fin 1)\<rparr>]\<rparr>]"
  using failing_ads_keep_campaign [of
     "\<lparr>platform_name = ''p'',
      fetch_campaigns = (\<lambda>sd ed.
        Inr [\<lparr>campaign_id = Some ''c1'', name = Some ''One'', campaign_impressions = Some 10,
               campaign_clicks = Some 1, campaign_spend = Some 2\<rparr>,
             \<lparr>campaign_id = Some ''c2'', name = Some ''Two'', campaign_impressions = Some 20,
               campaign_clicks = Some 2, campaign_spend = Some 3\<rparr>]),
      fetch_ads = (\<lambda>cid sd ed.
        if cid = ''c1'' then Inl AuthenticationError
        else Inr [\<lparr>ad_id = Some ''a'', ad_name = Some ''Ad'', impressions = Some 5,
                   clicks = Some 1, spend = Some 1, ctr = Some (Fin 20),
                   cpc = Some (Fin 1)\<rparr>])\<rparr>" 738521 738551
     "[\<lparr>campaign_id = Some ''c1'', name = Some ''One'', campaign_impressions = Some 10,
               campaign_clicks = Some 1, campaign_spend = Some 2\<rparr>,
             \<lparr>campaign_id = Some ''c2'', name = Some ''Two'', campaign_impressions = Some 20,
               campaign_clicks = Some 2, campaign_spend = Some 3\<rparr>]" False "[]"]
  by simp

section \<open>Errors of the aggregation\<close>

text \<open>
  C1, as the spec states it, fails: \<open>aggregate_data\<close> has no check of the clients
  or of the date range. With no client, and with a start date after the end date, it
  returns the empty list; with a client that validates the range as the concrete
  clients do, the \<open>ValueError\<close> of the client is caught like every other exception
  and the result is again the empty list.
\<close>

theorem aggregate_data_no_check_counterexample:
  "aggregate_data [] 738551 738521 True [] = Inr []
   \<and> fetch_campaigns
       (MetaAdsClient 738600 (Inr []) (Inl AuthenticationError))
       738551 738521 = Inl (ValueError Start_after_end)
   \<and> aggregate_data
       [MetaAdsClient 738600 (Inr []) (Inl AuthenticationError)]
       738551 738521 True [] = Inr []"
  by (simp add: aggregate_data_def fetch_client_data_def MetaAdsClient_def guarded_fetch_def
      validate_date_range_def and_then_simps)

text \<open>
  C1, amended: \<open>aggregate_data\<close> never raises. It checks neither the number of
  clients nor the date range before dispatch: with zero clients it returns the empty
  list, and a malformed date range (start after end, or start in the future) is
  rejected only by the clients, whose error is caught; when every client validates the
  range first, the result for a malformed range is the empty list. Every exception
  raised while fetching is caught inside \<open>aggregate_data\<close> and does not reach the
  caller.
\<close>

theorem aggregate_data_never_raises:
  "(\<exists>r. aggregate_data clients sd ed parallel completed = Inr r)
   \<and> aggregate_data [] sd ed parallel completed = Inr []
   \<and> ((ed < sd \<or> today < sd) \<and> mset completed = mset clients \<and>
       (\<forall>cl\<in>set clients. \<exists>passed body.
          fetch_campaigns cl sd ed = guarded_fetch today passed body sd ed) \<longrightarrow>
         aggregate_data clients sd ed parallel completed = Inr [])"
proof (intro conjI impI)
  show "\<exists>r. aggregate_data clients sd ed parallel completed = Inr r"
    by (simp add: aggregate_data_def)
  show "aggregate_data [] sd ed parallel completed = Inr []"
    by (simp add: aggregate_data_def)
  assume h: "(ed < sd \<or> today < sd) \<and> mset completed = mset clients \<and>
       (\<forall>cl\<in>set clients. \<exists>passed body.
          fetch_campaigns cl sd ed = guarded_fetch today passed body sd ed)"
  then have bad: "ed < sd \<or> today < sd" by simp
  from h have "set completed = set clients" by (metis set_mset_mset)
  with h have "\<forall>cl\<in>set (if parallel \<and> 1 < length clients then completed else clients).
      \<exists>passed body. fetch_campaigns cl sd ed = guarded_fetch today passed body sd ed"
    by simp
  then have "\<forall>cl\<in>set (if parallel \<and> 1 < length clients then completed else clients).
      isl (fetch_client_data cl sd ed)"
    using guarded_fetch_invalid [OF bad] fetch_campaigns_fails by metis
  then have "filter (\<lambda>cl. \<not> isl (fetch_client_data cl sd ed))
      (if parallel \<and> 1 < length clients then completed else clients) = []"
    by (simp only: filter_empty_conv) blast
  then have c: "collect sd ed (if parallel \<and> 1 < length clients then completed else clients) [] = []"
    by (simp add: collect_concat)
  have ag: "aggregate_data clients sd ed parallel completed =
      Inr (collect sd ed (if parallel \<and> 1 < length clients then completed else clients) [])"
    by (simp add: aggregate_data_def)
  show "aggregate_data clients sd ed parallel completed = Inr []"
    by (simp only: ag c)
qed

theorem aggregate_data_never_raises_witness:
  "(\<exists>r. aggregate_data [MockAdsClient ''failing'' True] 738521 738551 False [] = Inr r)
   \<and> aggregate_data [] 738551 738521 True [] = Inr []
   \<and> aggregate_data
       [MetaAdsClient 738600 (Inr []) (Inl AuthenticationError)]
       738601 738610 False
       [MetaAdsClient 738600 (Inr []) (Inl AuthenticationError)] = Inr []"
proof -
  have g: "\<exists>passed body.
     fetch_campaigns (MetaAdsClient 738600 (Inr []) (Inl AuthenticationError)) 738601 738610 =
     guarded_fetch 738600 passed body 738601 738610"
    unfolding MetaAdsClient_def by (simp del: ex_simps) blast
  from g aggregate_data_never_raises [of "[MockAdsClient ''failing'' True]" 738521 738551 False "[]"]
    aggregate_data_never_raises [of "[]" 738551 738521 True "[]"]
    aggregate_data_never_raises [of
       "[MetaAdsClient 738600 (Inr []) (Inl AuthenticationError)]"
       738601 738610 False
       "[MetaAdsClient 738600 (Inr []) (Inl AuthenticationError)]" 738600]
  show ?thesis by simp
qed

end
